theory Spec2Isabelle
  imports
    Complex_Main
    "HOL-Library.Char_ord"
    "HOL-Library.List_Lexorder"
    "HOL-Library.Sublist"
    "HOL-Library.Multiset"
begin

section \<open>Daily Menu: the recommender and the visit store\<close>

text \<open>
  A shallow embedding of \<^verbatim>\<open>recommender.py\<close> and of the visit operations of
  \<^verbatim>\<open>database.py\<close>.

  \<^item> Python numbers that are divided or rounded are rationals (\<^typ>\<open>rat\<close>): the arithmetic
    is exact, the representation error of binary floating point is not modelled.
  \<^item> Python strings are \<^typ>\<open>string\<close>; \<open>\<le>\<close> on them is the lexicographic order on
    character codes, as Python's comparison of \<^verbatim>\<open>str\<close> is.
  \<^item> \<^verbatim>\<open>datetime.now()\<close> is an explicit argument \<open>now\<close> of every function that reads the clock.
  \<^item> A raised exception is \<open>Inl\<close> of an \<open>error\<close>.
\<close>

subsection \<open>The calendar of Python's \<^verbatim>\<open>datetime\<close>\<close>

text \<open>
  Only the calendar date of a \<^verbatim>\<open>datetime\<close> is read by the program (\<^verbatim>\<open>weekday\<close>,
  \<^verbatim>\<open>strftime("%Y-%m-%d")\<close>, and \<^verbatim>\<open>.days\<close> of a difference with a midnight, which
  is the difference of the two day numbers), so the time of day is left out.
  The functions follow the proleptic Gregorian arithmetic of the standard library.
\<close>

record datetime =
  year :: nat
  month :: nat
  day :: nat

datatype error = ValueError | KeyError | IndexError

definition is_leap :: "nat \<Rightarrow> bool" where
  "is_leap y = (y mod 4 = 0 \<and> (y mod 100 \<noteq> 0 \<or> y mod 400 = 0))"

definition days_before_year :: "nat \<Rightarrow> int" where
  "days_before_year y =
     (let p = int y - 1 in p * 365 + p div 4 - p div 100 + p div 400)"

definition DAYS_IN_MONTH :: "nat list" where
  "DAYS_IN_MONTH = [0, 31, 28, 31, 30, 31, 30, 31, 31, 30, 31, 30, 31]"

definition DAYS_BEFORE_MONTH :: "nat list" where
  "DAYS_BEFORE_MONTH = [0, 0, 31, 59, 90, 120, 151, 181, 212, 243, 273, 304, 334]"

definition days_in_month :: "nat \<Rightarrow> nat \<Rightarrow> nat" where
  "days_in_month y m = (if m = 2 \<and> is_leap y then 29 else DAYS_IN_MONTH ! m)"

definition days_before_month :: "nat \<Rightarrow> nat \<Rightarrow> nat" where
  "days_before_month y m =
     DAYS_BEFORE_MONTH ! m + (if 2 < m \<and> is_leap y then 1 else 0)"

text \<open>\<^verbatim>\<open>date.toordinal()\<close>: day 1 is 0001-01-01.\<close>

definition toordinal :: "datetime \<Rightarrow> int" where
  "toordinal d =
     days_before_year (year d) + int (days_before_month (year d) (month d)) + int (day d)"

text \<open>\<^verbatim>\<open>date.fromordinal\<close>, with the division in cycles of 400, 100, 4 and 1 years.\<close>

definition fromordinal :: "int \<Rightarrow> datetime" where
  "fromordinal n0 =
     (let n = n0 - 1;
          n400 = n div 146097; n = n mod 146097;
          n100 = n div 36524; n = n mod 36524;
          n4 = n div 1461; n = n mod 1461;
          n1 = n div 365; n = n mod 365;
          y = n400 * 400 + 1 + n100 * 100 + n4 * 4 + n1
      in if n1 = 4 \<or> n100 = 4 then \<lparr>year = nat (y - 1), month = 12, day = 31\<rparr>
         else
           let leapyear = (n1 = 3 \<and> (n4 \<noteq> 24 \<or> n100 = 3));
               m = nat ((n + 50) div 32);
               preceding = int (DAYS_BEFORE_MONTH ! m) + (if 2 < m \<and> leapyear then 1 else 0)
           in if n < preceding
              then
                let m' = m - 1;
                    preceding' = preceding
                      - (int (DAYS_IN_MONTH ! m') + (if m' = 2 \<and> leapyear then 1 else 0))
                in \<lparr>year = nat y, month = m', day = nat (n - preceding' + 1)\<rparr>
              else \<lparr>year = nat y, month = m, day = nat (n - preceding + 1)\<rparr>)"

text \<open>\<^verbatim>\<open>date.weekday()\<close>: Monday is 0, Sunday is 6.\<close>

definition weekday :: "datetime \<Rightarrow> nat" where
  "weekday d = nat ((toordinal d + 6) mod 7)"

text \<open>
  \<^verbatim>\<open>now - timedelta(days=k)\<close>. The clock is taken to be later than the first days of
  year 1, where Python would raise \<^verbatim>\<open>OverflowError\<close>.
\<close>

definition minus_days :: "datetime \<Rightarrow> nat \<Rightarrow> datetime" where
  "minus_days d k = fromordinal (toordinal d - int k)"

text \<open>\<^verbatim>\<open>(now - last_date).days\<close> for a \<open>last_date\<close> at midnight.\<close>

definition days_between :: "datetime \<Rightarrow> datetime \<Rightarrow> int" where
  "days_between now last_date = toordinal now - toordinal last_date"

subsection \<open>Formatting and parsing\<close>

definition digit_char :: "nat \<Rightarrow> char" where
  "digit_char n = ''0123456789'' ! n"

fun str_nat :: "nat \<Rightarrow> string" where
  "str_nat n = (if n < 10 then [digit_char n] else str_nat (n div 10) @ [digit_char (n mod 10)])"

declare str_nat.simps [simp del]

text \<open>\<^verbatim>\<open>str\<close> of a Python \<^verbatim>\<open>int\<close>.\<close>

definition str_int :: "int \<Rightarrow> string" where
  "str_int i = (if i < 0 then CHR ''-'' # str_nat (nat (- i)) else str_nat (nat i))"

text \<open>The format specifications \<^verbatim>\<open>:04d\<close> and \<^verbatim>\<open>:02d\<close>: zero padding to a least width.\<close>

definition zero_pad :: "nat \<Rightarrow> nat \<Rightarrow> string" where
  "zero_pad w n = (let s = str_nat n in replicate (w - length s) CHR ''0'' @ s)"

text \<open>\<^verbatim>\<open>strftime("%Y-%m-%d")\<close>.\<close>

definition strftime_ymd :: "datetime \<Rightarrow> string" where
  "strftime_ymd d =
     zero_pad 4 (year d) @ ''-'' @ zero_pad 2 (month d) @ ''-'' @ zero_pad 2 (day d)"

definition digit_val :: "char \<Rightarrow> nat option" where
  "digit_val c = (let k = (of_char c :: nat) in if 48 \<le> k \<and> k \<le> 57 then Some (k - 48) else None)"

fun digits_val :: "nat \<Rightarrow> string \<Rightarrow> nat option" where
  "digits_val acc [] = Some acc"
| "digits_val acc (c # cs) =
     (case digit_val c of None \<Rightarrow> None | Some k \<Rightarrow> digits_val (acc * 10 + k) cs)"

text \<open>The fields of a string between its hyphens.\<close>

fun split_dash :: "string \<Rightarrow> string list" where
  "split_dash [] = [[]]"
| "split_dash (c # cs) =
     (if c = CHR ''-'' then [] # split_dash cs
      else (case split_dash cs of [] \<Rightarrow> [[c]] | f # fs \<Rightarrow> (c # f) # fs))"

text \<open>
  The directives of \<^verbatim>\<open>strptime\<close>: \<^verbatim>\<open>%Y\<close> is four digits; \<^verbatim>\<open>%m\<close> is
  \<^verbatim>\<open>1[0-2]|0[1-9]|[1-9]\<close>; \<^verbatim>\<open>%d\<close> is \<^verbatim>\<open>3[01]|[12]\d|0[1-9]|[1-9]| [1-9]\<close>.
  No alternative contains a hyphen, so matching the format is matching each field.
\<close>

definition parse_Y :: "string \<Rightarrow> nat option" where
  "parse_Y s = (if length s = 4 then digits_val 0 s else None)"

definition parse_m :: "string \<Rightarrow> nat option" where
  "parse_m s =
     (if length s = 1 \<or> length s = 2
      then (case digits_val 0 s of
              None \<Rightarrow> None
            | Some k \<Rightarrow> if 1 \<le> k \<and> k \<le> 12 then Some k else None)
      else None)"

definition parse_d :: "string \<Rightarrow> nat option" where
  "parse_d s =
     (let t = (case s of [c, c'] \<Rightarrow> if c = CHR '' '' \<and> c' \<noteq> CHR ''0'' then [c'] else s | _ \<Rightarrow> s)
      in if length t = 1 \<or> length t = 2
         then (case digits_val 0 t of
                 None \<Rightarrow> None
               | Some k \<Rightarrow> if 1 \<le> k \<and> k \<le> 31 then Some k else None)
         else None)"

text \<open>
  \<^verbatim>\<open>datetime.strptime(s, "%Y-%m-%d")\<close>: \<^verbatim>\<open>ValueError\<close> when the string does not match
  the format, when the year is 0 or when the day is not a day of the month.
\<close>

definition strptime_ymd :: "string \<Rightarrow> error + datetime" where
  "strptime_ymd s =
     (case split_dash s of
        [fy, fm, fd] \<Rightarrow>
          (case (parse_Y fy, parse_m fm, parse_d fd) of
             (Some y, Some m, Some d) \<Rightarrow>
               if 1 \<le> y \<and> d \<le> days_in_month y m
               then Inr \<lparr>year = y, month = m, day = d\<rparr>
               else Inl ValueError
           | _ \<Rightarrow> Inl ValueError)
      | _ \<Rightarrow> Inl ValueError)"

text \<open>\<^verbatim>\<open>str.lower\<close> on the letters of ASCII.\<close>

definition lower_char :: "char \<Rightarrow> char" where
  "lower_char c =
     (let k = (of_char c :: nat) in if 65 \<le> k \<and> k \<le> 90 then char_of (k + 32) else c)"

definition lower :: "string \<Rightarrow> string" where
  "lower s = map lower_char s"

text \<open>\<^verbatim>\<open>" ".join(parts)\<close>.\<close>

fun join_space :: "string list \<Rightarrow> string" where
  "join_space [] = []"
| "join_space [p] = p"
| "join_space (p # q # ps) = p @ '' '' @ join_space (q # ps)"

text \<open>
  \<^verbatim>\<open>round(x, n)\<close> is a built-in of Python that acts on binary floats, and an argument
  \<open>rnd\<close> here. On the rationals that stand for the floats, what it promises is a multiple
  of \<open>10\<^sup>-\<^sup>n\<close> nearest to \<open>x\<close>; which of two equally near multiples it returns depends
  on the float and is left open.
\<close>

type_synonym rounding = "rat \<Rightarrow> nat \<Rightarrow> rat"

definition rounds_to_nearest :: "rounding \<Rightarrow> bool" where
  "rounds_to_nearest rnd =
     (\<forall>x n. (\<exists>k::int. rnd x n = of_int k / 10 ^ n) \<and> \<bar>rnd x n - x\<bar> \<le> 1 / (2 * 10 ^ n))"

subsection \<open>Data\<close>

text \<open>A row of the restaurant table, with the integer columns \<^verbatim>\<open>load_restaurants\<close> makes.\<close>

record restaurant =
  name :: string
  area :: string
  specific_day :: string
  item :: string
  travel_time :: int
  price :: int

text \<open>A row of the table \<^verbatim>\<open>calculate_scores\<close> returns: the restaurant and four more columns.\<close>

record scored = restaurant +
  days_since_visit :: int
  recency_score :: rat
  budget_score :: rat
  final_score :: rat

text \<open>An entry of \<^verbatim>\<open>history["visits"]\<close>.\<close>

record visit =
  v_date :: string
  v_restaurant :: string
  v_price :: rat
  v_item :: string

text \<open>
  The history is a dictionary whose only key read is \<^verbatim>\<open>"visits"\<close>; \<open>None\<close> is a
  dictionary without that key.
\<close>

type_synonym history = "visit list option"

text \<open>\<^verbatim>\<open>history.get("visits", [])\<close>.\<close>

definition get_visits :: "history \<Rightarrow> visit list" where
  "get_visits h = (case h of None \<Rightarrow> [] | Some vs \<Rightarrow> vs)"

record monthly_stats =
  days_visited :: nat
  total_spent :: rat
  current_average :: rat
  status :: string
  target_daily :: rat

text \<open>The dictionary \<^verbatim>\<open>get_recommendation\<close> returns.\<close>

record recommendation =
  r_name :: string
  r_area :: string
  r_item :: string
  r_price :: int
  r_travel_time :: int
  r_days_since_visit :: int
  r_recency_score :: rat
  r_budget_score :: rat
  r_final_score :: rat

subsection \<open>\<^verbatim>\<open>recommender.py\<close>\<close>

text \<open>Saudi work week: Sunday (6) to Thursday (3).\<close>

definition WORK_DAYS :: "nat \<rightharpoonup> string" where
  "WORK_DAYS =
     map_of [(6, ''Sunday''), (0, ''Monday''), (1, ''Tuesday''), (2, ''Wednesday''),
             (3, ''Thursday'')]"

definition THURSDAY :: nat where
  "THURSDAY = 3"

definition get_day_name :: "datetime \<Rightarrow> string" where
  "get_day_name d = (case WORK_DAYS (weekday d) of None \<Rightarrow> [] | Some s \<Rightarrow> s)"

definition is_work_day :: "datetime \<Rightarrow> bool" where
  "is_work_day d = (WORK_DAYS (weekday d) \<noteq> None)"

definition is_thursday :: "datetime \<Rightarrow> bool" where
  "is_thursday d = (weekday d = THURSDAY)"

text \<open>\<^verbatim>\<open>x or default\<close> for an optional number: \<^verbatim>\<open>None\<close> and 0 give the default.\<close>

definition or_default :: "nat option \<Rightarrow> nat \<Rightarrow> nat" where
  "or_default x dflt = (case x of None \<Rightarrow> dflt | Some k \<Rightarrow> if k = 0 then dflt else k)"

definition get_month_visits :: "datetime \<Rightarrow> history \<Rightarrow> nat option \<Rightarrow> nat option \<Rightarrow> visit list" where
  "get_month_visits now h year_arg month_arg =
     (let y = or_default year_arg (year now);
          m = or_default month_arg (month now)
      in filter (\<lambda>v. prefix (zero_pad 4 y @ ''-'' @ zero_pad 2 m) (v_date v)) (get_visits h))"

definition get_monthly_stats :: "rounding \<Rightarrow> datetime \<Rightarrow> history \<Rightarrow> monthly_stats" where
  "get_monthly_stats rnd now h =
     (let visits = get_month_visits now h None None
      in if visits = []
         then \<lparr>days_visited = 0, total_spent = 0, current_average = 0,
               status = ''green'', target_daily = 45 / 2\<rparr>
         else
           let n = length visits;
               total = sum_list (map v_price visits);
               average = (if 0 < n then total / of_nat n else 0);
               st = (if average < 20 then ''green''
                     else if average \<le> 25 then ''yellow''
                     else ''red'')
           in \<lparr>days_visited = n, total_spent = total, current_average = rnd average 1,
               status = st, target_daily = 45 / 2\<rparr>)"

definition get_recent_visits :: "datetime \<Rightarrow> history \<Rightarrow> nat \<Rightarrow> visit list" where
  "get_recent_visits now h days =
     (let cutoff = strftime_ymd (minus_days now days)
      in filter (\<lambda>v. cutoff \<le> v_date v) (get_visits h))"

definition get_recent_restaurant_names :: "datetime \<Rightarrow> history \<Rightarrow> nat \<Rightarrow> string set" where
  "get_recent_restaurant_names now h days = set (map v_restaurant (get_recent_visits now h days))"

definition get_available_restaurants :: "restaurant list \<Rightarrow> datetime \<Rightarrow> restaurant list" where
  "get_available_restaurants restaurants d =
     (let day_name = get_day_name d
      in if day_name = [] then []
         else filter (\<lambda>r. specific_day r = [] \<or> lower (specific_day r) = lower day_name)
                restaurants)"

definition get_days_since_visit :: "datetime \<Rightarrow> string \<Rightarrow> history \<Rightarrow> error + int" where
  "get_days_since_visit now restaurant_name h =
     (case map v_date (filter (\<lambda>v. v_restaurant v = restaurant_name) (get_visits h)) of
        [] \<Rightarrow> Inr 999
      | x # xs \<Rightarrow>
          (let last_visit = fold max xs x
           in case strptime_ymd last_visit of
                Inl e \<Rightarrow> Inl e
              | Inr last_date \<Rightarrow> Inr (days_between now last_date)))"

text \<open>
  The columns that \<^verbatim>\<open>calculate_scores\<close> adds to one row, from the row's days since the
  last visit.
\<close>

definition score_row :: "monthly_stats \<Rightarrow> bool \<Rightarrow> restaurant \<Rightarrow> int \<Rightarrow> scored" where
  "score_row stats thursday r k =
     (let recency = of_int (min k 30) / 30;
          budget =
            (if thursday then 1 / 2
             else
               let current_avg = current_average stats
               in if 25 < current_avg then 1 - of_int (price r) / 40
                  else if current_avg < 20 then of_int (price r) / 40
                  else 1 / 2);
          final = (if thursday then recency else recency * (1 / 2) + budget * (1 / 2))
      in \<lparr>name = name r, area = area r, specific_day = specific_day r, item = item r,
          travel_time = travel_time r, price = price r,
          days_since_visit = k, recency_score = recency, budget_score = budget,
          final_score = final\<rparr>)"

text \<open>The column \<^verbatim>\<open>days_since_visit\<close>, row by row; the first exception ends it.\<close>

fun days_column :: "datetime \<Rightarrow> history \<Rightarrow> restaurant list \<Rightarrow> error + int list" where
  "days_column now h [] = Inr []"
| "days_column now h (r # rs) =
     (case get_days_since_visit now (name r) h of
        Inl e \<Rightarrow> Inl e
      | Inr k \<Rightarrow> (case days_column now h rs of Inl e \<Rightarrow> Inl e | Inr ks \<Rightarrow> Inr (k # ks)))"

definition calculate_scores ::
    "rounding \<Rightarrow> datetime \<Rightarrow> restaurant list \<Rightarrow> history \<Rightarrow> datetime
       \<Rightarrow> error + scored list" where
  "calculate_scores rnd now restaurants h d =
     (let stats = get_monthly_stats rnd now h;
          thursday = is_thursday d
      in case days_column now h restaurants of
           Inl e \<Rightarrow> Inl e
         | Inr ks \<Rightarrow> Inr (map2 (score_row stats thursday) restaurants ks))"

text \<open>
  \<^verbatim>\<open>sort_values("final_score", ascending=False)\<close> is a function of the table library and
  an argument \<open>sort_values\<close> here. What its documentation promises is that the rows come
  back rearranged with the scores descending; the default sorting kind is not a stable one.
\<close>

definition sorts_descending :: "(scored list \<Rightarrow> scored list) \<Rightarrow> bool" where
  "sorts_descending sort_values =
     (\<forall>xs. mset (sort_values xs) = mset xs
         \<and> sorted_wrt (\<lambda>a b. final_score b \<le> final_score a) (sort_values xs))"

definition top_dict :: "rounding \<Rightarrow> scored \<Rightarrow> recommendation" where
  "top_dict rnd top_row =
     \<lparr>r_name = name top_row, r_area = area top_row, r_item = item top_row, r_price = price top_row,
      r_travel_time = travel_time top_row, r_days_since_visit = days_since_visit top_row,
      r_recency_score = rnd (recency_score top_row) 2,
      r_budget_score = rnd (budget_score top_row) 2,
      r_final_score = rnd (final_score top_row) 2\<rparr>"

definition get_recommendation ::
    "rounding \<Rightarrow> (scored list \<Rightarrow> scored list) \<Rightarrow> datetime \<Rightarrow> restaurant list \<Rightarrow> history
       \<Rightarrow> datetime option \<Rightarrow> error + recommendation option" where
  "get_recommendation rnd sort_values now restaurants h date_arg =
     (let d = (case date_arg of None \<Rightarrow> now | Some d \<Rightarrow> d)
      in if \<not> is_work_day d then Inr None
         else
           let available = get_available_restaurants restaurants d
           in if available = [] then Inr None
              else
                let recent_restaurants = get_recent_restaurant_names now h 7;
                    unvisited = filter (\<lambda>r. name r \<notin> recent_restaurants) available;
                    candidates =
                      (if unvisited = [] then get_available_restaurants restaurants d
                       else unvisited)
                in case calculate_scores rnd now candidates h d of
                     Inl e \<Rightarrow> Inl e
                   | Inr rows \<Rightarrow>
                       (case sort_values rows of
                          [] \<Rightarrow> Inl IndexError
                        | top_row # _ \<Rightarrow> Inr (Some (top_dict rnd top_row))))"

text \<open>
  The two groups of sentences of \<^verbatim>\<open>explain_recommendation\<close>. \<open>str_num\<close> is Python's
  \<^verbatim>\<open>str\<close> of the average, which is the integer 0 or a float.
\<close>

definition recency_parts :: "int \<Rightarrow> string list" where
  "recency_parts days =
     (if 999 \<le> days then [''You've never been here before!'']
      else if 14 < days then [''It's been '' @ str_int days @ '' days since your last visit.'']
      else if 7 < days then [''Last visited '' @ str_int days @ '' days ago.'']
      else [])"

definition budget_parts :: "(rat \<Rightarrow> string) \<Rightarrow> bool \<Rightarrow> int \<Rightarrow> rat \<Rightarrow> string list" where
  "budget_parts str_num thursday price_arg avg =
     (if \<not> thursday
      then
        if 25 < avg
        then [''At '' @ str_int price_arg @ '' SAR, this helps bring your monthly average down from ''
                @ str_num avg @ '' SAR.'']
        else if avg < 20 \<and> 25 < price_arg
        then [''Your average is low ('' @ str_num avg @ '' SAR), so you can treat yourself today!'']
        else if 20 \<le> avg \<and> avg \<le> 25
        then [''Your monthly average ('' @ str_num avg @ '' SAR) is on track.'']
        else []
      else [''It's Thursday! Treat yourself - no budget restrictions today.''])"

definition explain_recommendation ::
    "rounding \<Rightarrow> (rat \<Rightarrow> string) \<Rightarrow> datetime \<Rightarrow> recommendation \<Rightarrow> history
       \<Rightarrow> datetime option \<Rightarrow> string" where
  "explain_recommendation rnd str_num now reco h date_arg =
     (let d = (case date_arg of None \<Rightarrow> now | Some d \<Rightarrow> d);
          stats = get_monthly_stats rnd now h;
          thursday = is_thursday d
      in join_space
           (recency_parts (r_days_since_visit reco)
            @ budget_parts str_num thursday (r_price reco) (current_average stats)))"

subsection \<open>\<^verbatim>\<open>database.py\<close>: the visit operations\<close>

text \<open>
  The stored JSON document is the state: \<^verbatim>\<open>load_history\<close> reads it and \<^verbatim>\<open>save_history\<close>
  replaces it. The remote copy, and a save that fails, are not modelled, so the result
  of a save is \<open>True\<close>. \<^verbatim>\<open>history["visits"]\<close> raises \<^verbatim>\<open>KeyError\<close> on a document
  without the key.
\<close>

definition add_visit ::
    "datetime \<Rightarrow> history \<Rightarrow> string \<Rightarrow> rat \<Rightarrow> string \<Rightarrow> string option
       \<Rightarrow> error + bool \<times> history" where
  "add_visit now store restaurant_arg price_arg item_arg date_arg =
     (let new_visit =
            \<lparr>v_date = (case date_arg of
                         None \<Rightarrow> strftime_ymd now
                       | Some s \<Rightarrow> if s = [] then strftime_ymd now else s),
             v_restaurant = restaurant_arg, v_price = price_arg, v_item = item_arg\<rparr>
      in case store of
           None \<Rightarrow> Inl KeyError
         | Some vs \<Rightarrow> Inr (True, Some (vs @ [new_visit])))"

definition delete_visit :: "history \<Rightarrow> string \<Rightarrow> string \<Rightarrow> error + bool \<times> history" where
  "delete_visit store date_arg restaurant_arg =
     (case store of
        None \<Rightarrow> Inl KeyError
      | Some vs \<Rightarrow>
          Inr (True,
               Some (filter (\<lambda>v. \<not> (v_date v = date_arg \<and> v_restaurant v = restaurant_arg)) vs)))"

text \<open>Adding a visit with an explicit date, then deleting with the same date and restaurant.\<close>

definition add_then_delete ::
    "datetime \<Rightarrow> history \<Rightarrow> string \<Rightarrow> rat \<Rightarrow> string \<Rightarrow> string
       \<Rightarrow> error + bool \<times> history" where
  "add_then_delete now store restaurant_arg price_arg item_arg date_arg =
     (case add_visit now store restaurant_arg price_arg item_arg (Some date_arg) of
        Inl e \<Rightarrow> Inl e
      | Inr (ok, store') \<Rightarrow> delete_visit store' date_arg restaurant_arg)"

subsection \<open>The default sort of the table library\<close>

text \<open>
  \<^verbatim>\<open>sort_values\<close> with \<^verbatim>\<open>ascending=False\<close> takes the index array of NumPy's
  \<^verbatim>\<open>argsort\<close> on the reversed column and reverses it again; the default kind is
  \<^verbatim>\<open>quicksort\<close>. The functions below follow NumPy's scalar quicksort of an index array:
  the median of three, the partition around the pivot, insertion sort for a range of at
  most 17 entries, and heapsort once the depth bound is passed. The loops carry fuel; where
  the fuel ends, or where heapsort would start, the result is \<open>None\<close>. The vectorised
  variants that NumPy selects on some processors are not modelled.
\<close>

definition swap :: "nat \<Rightarrow> nat \<Rightarrow> nat list \<Rightarrow> nat list" where
  "swap i j t = t[i := t ! j, j := t ! i]"

primrec scan_up :: "nat \<Rightarrow> rat list \<Rightarrow> nat list \<Rightarrow> rat \<Rightarrow> nat \<Rightarrow> nat option" where
  "scan_up 0 v t vp i = None"
| "scan_up (Suc fuel) v t vp i =
     (if v ! (t ! i) < vp then scan_up fuel v t vp (Suc i) else Some i)"

primrec scan_down :: "nat \<Rightarrow> rat list \<Rightarrow> nat list \<Rightarrow> rat \<Rightarrow> nat \<Rightarrow> nat option" where
  "scan_down 0 v t vp j = None"
| "scan_down (Suc fuel) v t vp j =
     (if vp < v ! (t ! j) then scan_down fuel v t vp (j - 1) else Some j)"

primrec partition_loop ::
    "nat \<Rightarrow> rat list \<Rightarrow> nat list \<Rightarrow> rat \<Rightarrow> nat \<Rightarrow> nat \<Rightarrow> (nat list \<times> nat) option" where
  "partition_loop 0 v t vp i j = None"
| "partition_loop (Suc fuel) v t vp i j =
     (case scan_up (length t) v t vp (Suc i) of
        None \<Rightarrow> None
      | Some i' \<Rightarrow>
          (case scan_down (length t) v t vp (j - 1) of
             None \<Rightarrow> None
           | Some j' \<Rightarrow>
               if j' \<le> i' then Some (t, i')
               else partition_loop fuel v (swap i' j' t) vp i' j'))"

primrec shift_up :: "nat \<Rightarrow> rat list \<Rightarrow> nat \<Rightarrow> rat \<Rightarrow> nat list \<Rightarrow> nat list \<times> nat" where
  "shift_up 0 v pl vp t = (t, 0)"
| "shift_up (Suc k) v pl vp t =
     (if pl < Suc k \<and> vp < v ! (t ! k) then shift_up k v pl vp (t[Suc k := t ! k])
      else (t, Suc k))"

primrec insertion_loop :: "nat \<Rightarrow> rat list \<Rightarrow> nat \<Rightarrow> nat list \<Rightarrow> nat \<Rightarrow> nat list" where
  "insertion_loop 0 v pl t i = t"
| "insertion_loop (Suc n) v pl t i =
     (case shift_up i v pl (v ! (t ! i)) t of
        (t', j) \<Rightarrow> insertion_loop n v pl (t'[j := t ! i]) (Suc i))"

definition insertion_sort :: "rat list \<Rightarrow> nat list \<Rightarrow> nat \<Rightarrow> nat \<Rightarrow> nat list" where
  "insertion_sort v t pl pr = insertion_loop (pr - pl) v pl t (Suc pl)"

definition median_of_three :: "rat list \<Rightarrow> nat list \<Rightarrow> nat \<Rightarrow> nat \<Rightarrow> nat \<Rightarrow> nat list" where
  "median_of_three v t pl pm pr =
     (let t1 = (if v ! (t ! pm) < v ! (t ! pl) then swap pm pl t else t);
          t2 = (if v ! (t1 ! pr) < v ! (t1 ! pm) then swap pr pm t1 else t1)
      in if v ! (t2 ! pm) < v ! (t2 ! pl) then swap pm pl t2 else t2)"

definition partition :: "rat list \<Rightarrow> nat list \<Rightarrow> nat \<Rightarrow> nat \<Rightarrow> (nat list \<times> nat) option" where
  "partition v t pl pr =
     (let pm = pl + (pr - pl) div 2;
          t3 = median_of_three v t pl pm pr;
          vp = v ! (t3 ! pm);
          t4 = swap pm (pr - 1) t3
      in case partition_loop (length t) v t4 vp pl (pr - 1) of
           None \<Rightarrow> None
         | Some (t5, i) \<Rightarrow> Some (swap i (pr - 1) t5, i))"

primrec aquicksort ::
    "nat \<Rightarrow> rat list \<Rightarrow> nat list \<Rightarrow> nat \<Rightarrow> nat \<Rightarrow> int \<Rightarrow> bool \<Rightarrow> nat list option" where
  "aquicksort 0 v t pl pr cdepth popped = None"
| "aquicksort (Suc fuel) v t pl pr cdepth popped =
     (if popped \<and> cdepth < 0 then None
      else if pl + 16 < pr
      then
        (case partition v t pl pr of
           None \<Rightarrow> None
         | Some (t6, i) \<Rightarrow>
             if i - pl < pr - i
             then (case aquicksort fuel v t6 pl (i - 1) (cdepth - 1) False of
                     None \<Rightarrow> None
                   | Some t7 \<Rightarrow> aquicksort fuel v t7 (i + 1) pr (cdepth - 1) True)
             else (case aquicksort fuel v t6 (i + 1) pr (cdepth - 1) False of
                     None \<Rightarrow> None
                   | Some t7 \<Rightarrow> aquicksort fuel v t7 pl (i - 1) (cdepth - 1) True))
      else Some (insertion_sort v t pl pr))"

fun get_msb :: "nat \<Rightarrow> nat" where
  "get_msb n = (if n \<le> 1 then 0 else Suc (get_msb (n div 2)))"

declare get_msb.simps [simp del]

definition argsort_quicksort :: "rat list \<Rightarrow> nat list option" where
  "argsort_quicksort v =
     (let n = length v
      in if n = 0 then Some []
         else aquicksort n v [0..<n] 0 (n - 1) (2 * int (get_msb n)) False)"

definition nargsort_descending :: "rat list \<Rightarrow> nat list option" where
  "nargsort_descending items =
     (let n = length items
      in case argsort_quicksort (rev items) of
           None \<Rightarrow> None
         | Some a \<Rightarrow> Some (rev (map (\<lambda>i. rev [0..<n] ! i) a)))"

text \<open>
  \<^verbatim>\<open>sort_values("final_score", ascending=False)\<close> with that quicksort: the rows in the
  order of the index array; no row where the model of the quicksort gives no result.
\<close>

definition quicksort_sort_values :: "scored list \<Rightarrow> scored list" where
  "quicksort_sort_values rows =
     (case nargsort_descending (map final_score rows) of
        None \<Rightarrow> []
      | Some indexer \<Rightarrow> map (\<lambda>i. rows ! i) indexer)"

subsection \<open>Sorting, rounding and a number format, for concrete runs\<close>

text \<open>
  A descending sort that keeps rows of equal score in their order: what the table library
  does with a stable kind (reverse, sort ascending, reverse).
\<close>

definition stable_sort_values :: "scored list \<Rightarrow> scored list" where
  "stable_sort_values xs = rev (sort_key final_score (rev xs))"

text \<open>
  Rounding to the nearest multiple, a tie going to the even one: what \<^verbatim>\<open>round\<close> returns
  on a float that is a binary fraction, as every value rounded in the concrete runs is.
\<close>

definition round_half_even :: rounding where
  "round_half_even x n =
     (let s = x * 10 ^ n;
          f = \<lfloor>s\<rfloor>;
          r = s - of_int f;
          k = (if r < 1 / 2 then f else if 1 / 2 < r then f + 1
               else if even f then f else f + 1)
      in of_int k / 10 ^ n)"

text \<open>Python's \<^verbatim>\<open>str\<close> of a non-negative float with one decimal.\<close>

definition str_tenths :: "rat \<Rightarrow> string" where
  "str_tenths x = str_nat (nat \<lfloor>x\<rfloor>) @ ''.'' @ str_nat (nat (\<lfloor>x * 10\<rfloor> mod 10))"

subsection \<open>Histories of the data model\<close>

text \<open>
  The data model gives a visit a calendar date in ISO form. That is the history for which
  \<^verbatim>\<open>strptime\<close> raises nothing.
\<close>

definition is_calendar_date :: "string \<Rightarrow> bool" where
  "is_calendar_date s = (case strptime_ymd s of Inl _ \<Rightarrow> False | Inr _ \<Rightarrow> True)"

definition iso_dates :: "history \<Rightarrow> bool" where
  "iso_dates h = list_all (\<lambda>v. is_calendar_date (v_date v)) (get_visits h)"

subsection \<open>Concrete data\<close>

definition ex_monday :: datetime where
  "ex_monday = \<lparr>year = 2024, month = 6, day = 10\<rparr>"

definition ex_next_monday :: datetime where
  "ex_next_monday = \<lparr>year = 2024, month = 6, day = 17\<rparr>"

definition ex_thursday :: datetime where
  "ex_thursday = \<lparr>year = 2024, month = 6, day = 13\<rparr>"

definition ex_saturday :: datetime where
  "ex_saturday = \<lparr>year = 2024, month = 6, day = 15\<rparr>"

definition cafe_a :: restaurant where
  "cafe_a = \<lparr>name = ''A'', area = ''North'', specific_day = [], item = ''Soup'',
            travel_time = 5, price = 15\<rparr>"

definition cafe_b :: restaurant where
  "cafe_b = \<lparr>name = ''B'', area = ''South'', specific_day = [], item = ''Rice'',
            travel_time = 9, price = 15\<rparr>"

definition visit_a :: visit where
  "visit_a = \<lparr>v_date = ''2024-06-02'', v_restaurant = ''A'', v_price = 30, v_item = ''Soup''\<rparr>"

definition visit_b :: visit where
  "visit_b = \<lparr>v_date = ''2024-06-05'', v_restaurant = ''B'', v_price = 31, v_item = ''Rice''\<rparr>"

definition visit_may :: visit where
  "visit_may = \<lparr>v_date = ''2024-05-30'', v_restaurant = ''B'', v_price = 40, v_item = ''Rice''\<rparr>"

definition visit_ahead :: visit where
  "visit_ahead = \<lparr>v_date = ''2024-06-11'', v_restaurant = ''A'', v_price = 15, v_item = ''Soup''\<rparr>"

text \<open>What is recommended on the first Monday, no visit recorded yet.\<close>

definition reco_a :: recommendation where
  "reco_a = \<lparr>r_name = ''A'', r_area = ''North'', r_item = ''Soup'', r_price = 15,
             r_travel_time = 5, r_days_since_visit = 999, r_recency_score = 1,
             r_budget_score = 19 / 50, r_final_score = 69 / 100\<rparr>"

definition reco_b :: recommendation where
  "reco_b = \<lparr>r_name = ''B'', r_area = ''South'', r_item = ''Rice'', r_price = 15,
             r_travel_time = 9, r_days_since_visit = 999, r_recency_score = 1,
             r_budget_score = 19 / 50, r_final_score = 69 / 100\<rparr>"

text \<open>The rows of A and B in the scored table of that Monday.\<close>

definition scored_a :: scored where
  "scored_a = \<lparr>name = ''A'', area = ''North'', specific_day = [], item = ''Soup'',
               travel_time = 5, price = 15, days_since_visit = 999, recency_score = 1,
               budget_score = 3 / 8, final_score = 11 / 16\<rparr>"

definition scored_b :: scored where
  "scored_b = \<lparr>name = ''B'', area = ''South'', specific_day = [], item = ''Rice'',
               travel_time = 9, price = 15, days_since_visit = 999, recency_score = 1,
               budget_score = 3 / 8, final_score = 11 / 16\<rparr>"

text \<open>A table of eighteen restaurants, the first of them visited ten days before a Thursday.\<close>

definition cafe_named :: "string \<Rightarrow> restaurant" where
  "cafe_named n = \<lparr>name = n, area = ''Centre'', specific_day = [], item = ''Dish'',
                   travel_time = 10, price = 20\<rparr>"

definition eighteen_names :: "string list" where
  "eighteen_names =
     [''R01'', ''R02'', ''R03'', ''R04'', ''R05'', ''R06'', ''R07'', ''R08'', ''R09'',
      ''R10'', ''R11'', ''R12'', ''R13'', ''R14'', ''R15'', ''R16'', ''R17'', ''R18'']"

definition eighteen_cafes :: "restaurant list" where
  "eighteen_cafes = map cafe_named eighteen_names"

definition visit_r01 :: visit where
  "visit_r01 = \<lparr>v_date = ''2024-06-03'', v_restaurant = ''R01'', v_price = 20, v_item = ''Dish''\<rparr>"

definition scored_named :: "string \<Rightarrow> int \<Rightarrow> rat \<Rightarrow> scored" where
  "scored_named n k s =
     \<lparr>name = n, area = ''Centre'', specific_day = [], item = ''Dish'', travel_time = 10,
      price = 20, days_since_visit = k, recency_score = s, budget_score = 1 / 2,
      final_score = s\<rparr>"

definition eighteen_rows :: "scored list" where
  "eighteen_rows =
     scored_named ''R01'' 10 (1 / 3) # map (\<lambda>n. scored_named n 999 1) (tl eighteen_names)"

subsection \<open>Evaluation of the concrete data\<close>

lemmas calendar_defs =
  toordinal_def fromordinal_def weekday_def minus_days_def days_between_def
  days_before_year_def days_before_month_def days_in_month_def is_leap_def
  DAYS_IN_MONTH_def DAYS_BEFORE_MONTH_def

lemmas format_defs = strftime_ymd_def zero_pad_def str_nat.simps digit_char_def str_int_def

lemmas parse_defs = strptime_ymd_def parse_Y_def parse_m_def parse_d_def digit_val_def

lemmas example_defs =
  ex_monday_def ex_next_monday_def ex_thursday_def ex_saturday_def cafe_a_def cafe_b_def
  visit_a_def visit_b_def visit_may_def visit_ahead_def

lemma weekday_examples:
  "weekday ex_monday = 0" "weekday ex_next_monday = 0" "weekday ex_thursday = 3"
  "weekday ex_saturday = 5"
  by (simp_all add: example_defs calendar_defs)

lemma day_kind_examples:
  "is_work_day ex_monday" "\<not> is_thursday ex_monday"
  "is_work_day ex_next_monday" "\<not> is_thursday ex_next_monday"
  "is_work_day ex_thursday" "is_thursday ex_thursday"
  "\<not> is_work_day ex_saturday"
  by (simp_all add: is_work_day_def is_thursday_def THURSDAY_def WORK_DAYS_def weekday_examples)

lemma strptime_examples:
  "strptime_ymd ''2024-06-02'' = Inr \<lparr>year = 2024, month = 6, day = 2\<rparr>"
  "strptime_ymd ''2024-06-05'' = Inr \<lparr>year = 2024, month = 6, day = 5\<rparr>"
  "strptime_ymd ''2024-06-11'' = Inr \<lparr>year = 2024, month = 6, day = 11\<rparr>"
  by (simp_all add: parse_defs calendar_defs)

lemma iso_dates_examples:
  "iso_dates None" "iso_dates (Some [])" "iso_dates (Some [visit_a, visit_b])"
  "iso_dates (Some [visit_a])" "iso_dates (Some [visit_ahead])"
  by (simp_all add: iso_dates_def get_visits_def is_calendar_date_def example_defs
      strptime_examples)

lemma month_visits_examples:
  "get_month_visits ex_monday None None None = []"
  "get_month_visits ex_monday (Some []) None None = []"
  "get_month_visits ex_monday (Some [visit_a, visit_b]) None None = [visit_a, visit_b]"
  "get_month_visits ex_monday (Some [visit_a]) None None = [visit_a]"
  by (simp_all add: get_month_visits_def or_default_def get_visits_def example_defs
      format_defs)

lemma monthly_stats_examples:
  "get_monthly_stats round_half_even ex_monday None =
     \<lparr>days_visited = 0, total_spent = 0, current_average = 0, status = ''green'',
      target_daily = 45 / 2\<rparr>"
  "get_monthly_stats round_half_even ex_monday (Some [visit_a, visit_b]) =
     \<lparr>days_visited = 2, total_spent = 61, current_average = 61 / 2, status = ''red'',
      target_daily = 45 / 2\<rparr>"
  by (simp_all add: get_monthly_stats_def month_visits_examples Let_def)
    (simp_all add: visit_a_def visit_b_def round_half_even_def Let_def)
subsection \<open>Scoring never raises on a history of the data model\<close>

lemma fold_max_mem: "fold max xs (x::'a::linorder) \<in> set (x # xs)"
proof (induction xs arbitrary: x)
  case Nil
  show ?case by simp
next
  case (Cons a xs)
  define y where "y = fold max xs (max a x)"
  have "y \<in> set (max a x # xs)" unfolding y_def by (rule Cons.IH)
  moreover have "max a x = a \<or> max a x = x" by (simp add: max_def)
  ultimately have "y \<in> set (x # a # xs)" by auto
  moreover have "fold max (a # xs) x = y" by (simp add: y_def)
  ultimately show ?case by simp
qed

lemma get_days_since_visit_ok:
  assumes "iso_dates h"
  shows "\<exists>k. get_days_since_visit now n h = Inr k"
proof (cases "map v_date (filter (\<lambda>v. v_restaurant v = n) (get_visits h))")
  case Nil
  then show ?thesis by (simp add: get_days_since_visit_def)
next
  case (Cons x xs)
  have "fold max xs x \<in> set (x # xs)" by (rule fold_max_mem)
  then have "fold max xs x \<in> v_date ` set (get_visits h)"
    using Cons [symmetric] by auto
  then have "is_calendar_date (fold max xs x)"
    using assms by (auto simp: iso_dates_def list_all_iff)
  then obtain d where "strptime_ymd (fold max xs x) = Inr d"
    by (auto simp: is_calendar_date_def split: sum.splits)
  then show ?thesis using Cons by (simp add: get_days_since_visit_def)
qed

lemma days_column_ok:
  assumes "iso_dates h"
  shows "\<exists>ks. days_column now h rs = Inr ks
           \<and> list_all2 (\<lambda>r k. get_days_since_visit now (name r) h = Inr k) rs ks"
proof (induction rs)
  case Nil
  show ?case by simp
next
  case (Cons r rs)
  obtain k where k: "get_days_since_visit now (name r) h = Inr k"
    using get_days_since_visit_ok [OF assms, of now "name r"] by blast
  from Cons obtain ks where "days_column now h rs = Inr ks"
    and "list_all2 (\<lambda>r k. get_days_since_visit now (name r) h = Inr k) rs ks" by blast
  with k show ?case by simp
qed

lemma calculate_scores_ok:
  assumes "iso_dates h"
  shows "\<exists>ks. list_all2 (\<lambda>r k. get_days_since_visit now (name r) h = Inr k) rs ks
           \<and> calculate_scores rnd now rs h d =
               Inr (map2 (score_row (get_monthly_stats rnd now h) (is_thursday d)) rs ks)"
proof -
  obtain ks where "days_column now h rs = Inr ks"
    and "list_all2 (\<lambda>r k. get_days_since_visit now (name r) h = Inr k) rs ks"
    using days_column_ok [OF assms, of now rs] by blast
  then show ?thesis by (auto simp: calculate_scores_def)
qed

lemma list_all2_map2:
  assumes "list_all2 Q rs ks" and "\<And>r k. Q r k \<Longrightarrow> P r (f r k)"
  shows "list_all2 P rs (map2 f rs ks)"
  using assms by (induction rule: list_all2_induct) auto

lemma in_set_map2:
  assumes "row \<in> set (map2 f rs ks)"
  shows "\<exists>r k. row = f r k"
  using assms by (auto simp: set_zip)

lemma round_half_even_nearest_aux:
  "\<exists>k::int. round_half_even x n = of_int k / 10 ^ n \<and> \<bar>round_half_even x n - x\<bar> \<le> 1 / (2 * 10 ^ n)"
proof -
  define s where "s = x * 10 ^ n"
  define f where "f = \<lfloor>s\<rfloor>"
  define r where "r = s - of_int f"
  define k where "k = (if r < 1 / 2 then f else if 1 / 2 < r then f + 1
                       else if even f then f else f + 1)"
  have pr: "round_half_even x n = of_int k / 10 ^ n"
    by (simp add: round_half_even_def Let_def s_def f_def r_def k_def)
  have r01: "0 \<le> r" "r < 1"
    unfolding r_def f_def by linarith+
  have "\<bar>of_int k - s\<bar> \<le> 1 / 2"
    using r01 unfolding k_def r_def by (auto simp: abs_if)
  then have "\<bar>of_int k - s\<bar> / 10 ^ n \<le> (1 / 2) / 10 ^ n"
    by (rule divide_right_mono) simp
  moreover have "\<bar>of_int k - s\<bar> / 10 ^ n = \<bar>of_int k / 10 ^ n - x\<bar>"
  proof -
    have "of_int k / 10 ^ n - x = (of_int k - s) / 10 ^ n"
      by (simp add: s_def diff_divide_distrib)
    then show ?thesis by (simp add: abs_divide)
  qed
  ultimately have "\<bar>round_half_even x n - x\<bar> \<le> 1 / (2 * 10 ^ n)"
    by (simp add: pr)
  with pr show ?thesis by blast
qed

subsection \<open>Decimal strings and the month of a date\<close>

lemma digit_val_digit_char:
  assumes "k < 10"
  shows "digit_val (digit_char k) = Some k"
proof -
  have "k \<in> {0, 1, 2, 3, 4, 5, 6, 7, 8, 9}" using assms by auto
  then show ?thesis
    by (auto simp: digit_char_def digit_val_def)
qed

lemma digits_val_append:
  "digits_val acc (xs @ ys) =
     (case digits_val acc xs of None \<Rightarrow> None | Some a \<Rightarrow> digits_val a ys)"
  by (induction xs arbitrary: acc) (auto split: option.splits)

lemma digits_val_str_nat:
  "digits_val acc (str_nat n) = Some (acc * 10 ^ length (str_nat n) + n)"
proof (induction n arbitrary: acc rule: str_nat.induct)
  case (1 n)
  show ?case
  proof (cases "n < 10")
    case True
    then show ?thesis
      by (simp add: str_nat.simps [of n] digit_val_digit_char)
  next
    case False
    have m: "n mod 10 < 10" by simp
    have s: "str_nat n = str_nat (n div 10) @ [digit_char (n mod 10)]"
      using False by (simp add: str_nat.simps [of n])
    have "digits_val acc (str_nat (n div 10)) =
            Some (acc * 10 ^ length (str_nat (n div 10)) + n div 10)"
      using "1.IH" [OF False] .
    then show ?thesis
      unfolding s by (simp add: digits_val_append digit_val_digit_char [OF m] algebra_simps)
  qed
qed

lemma digits_val_zero_pad: "digits_val 0 (zero_pad w n) = Some n"
proof -
  have z: "digits_val 0 (replicate k CHR ''0'' @ s) = digits_val 0 s" for k s
    by (induction k) (simp_all add: digit_val_def)
  show ?thesis by (simp add: zero_pad_def Let_def z digits_val_str_nat)
qed

lemma zero_pad_inject:
  assumes "zero_pad w a = zero_pad w b"
  shows "a = b"
proof -
  have "digits_val 0 (zero_pad w a) = digits_val 0 (zero_pad w b)" using assms by simp
  then show ?thesis by (simp add: digits_val_zero_pad)
qed

lemma length_str_nat:
  assumes "0 < k" and "n < 10 ^ k"
  shows "length (str_nat n) \<le> k"
  using assms
proof (induction n arbitrary: k rule: str_nat.induct)
  case (1 n)
  show ?case
  proof (cases "n < 10")
    case True
    then show ?thesis using "1.prems" by (simp add: str_nat.simps [of n])
  next
    case False
    obtain j where k: "k = Suc j" using "1.prems"(1) by (cases k) auto
    have "0 < j"
    proof (rule ccontr)
      assume "\<not> 0 < j"
      then have "n < 10" using "1.prems"(2) k by simp
      then show False using False by simp
    qed
    moreover have "n div 10 < 10 ^ j" using "1.prems"(2) k by (simp add: less_mult_imp_div_less mult.commute)
    ultimately have "length (str_nat (n div 10)) \<le> j" using "1.IH" [OF False] by blast
    then show ?thesis using False k by (simp add: str_nat.simps [of n])
  qed
qed

lemma length_zero_pad:
  assumes "0 < w" and "n < 10 ^ w"
  shows "length (zero_pad w n) = w"
  using length_str_nat [OF assms] by (simp add: zero_pad_def Let_def)

text \<open>
  The prefix \<^verbatim>\<open>YYYY-MM\<close> of the clock's month begins the ISO form of exactly the dates of
  that year and month.
\<close>

lemma month_prefix_iff:
  assumes "year now < 10000" and "month now < 100" and "year dt < 10000" and "month dt < 100"
  shows "prefix (zero_pad 4 (year now) @ ''-'' @ zero_pad 2 (month now)) (strftime_ymd dt)
           \<longleftrightarrow> year dt = year now \<and> month dt = month now"
proof -
  have l: "length (zero_pad 4 (year now)) = 4" "length (zero_pad 4 (year dt)) = 4"
    "length (zero_pad 2 (month now)) = 2" "length (zero_pad 2 (month dt)) = 2"
    using assms by (simp_all add: length_zero_pad)
  have "prefix (zero_pad 4 (year now) @ ''-'' @ zero_pad 2 (month now)) (strftime_ymd dt)
          \<longleftrightarrow> zero_pad 4 (year now) = zero_pad 4 (year dt)
              \<and> zero_pad 2 (month now) = zero_pad 2 (month dt)"
    using l by (auto simp: prefix_def strftime_ymd_def)
  moreover have "zero_pad 4 (year now) = zero_pad 4 (year dt) \<longleftrightarrow> year dt = year now"
    using zero_pad_inject [of 4 "year now" "year dt"] by auto
  moreover have "zero_pad 2 (month now) = zero_pad 2 (month dt) \<longleftrightarrow> month dt = month now"
    using zero_pad_inject [of 2 "month now" "month dt"] by auto
  ultimately show ?thesis by simp
qed

lemma round_half_even_nearest: "rounds_to_nearest round_half_even"
  using round_half_even_nearest_aux by (simp add: rounds_to_nearest_def)

section \<open>The claims\<close>

text \<open>
  C1. On a day that is not Thursday, for every restaurant table and every history of the
  data model, \<^verbatim>\<open>calculate_scores\<close> returns a table whose \<^verbatim>\<open>budget_score\<close> is chosen by
  the current monthly average, the field \<^verbatim>\<open>current_average\<close> of the monthly statistics:
  above 25 it is \<open>1 - price / 40\<close> (below 0 for a price above 40), below 20 it is
  \<open>price / 40\<close>, and from 20 to 25 it is one half whatever the price.
\<close>

theorem budget_score_bands:
  assumes "\<not> is_thursday d" and "iso_dates h"
  shows "\<exists>rows. calculate_scores rnd now rs h d = Inr rows
           \<and> list_all2
               (\<lambda>r row. price row = price r
                  \<and> budget_score row =
                      (if 25 < current_average (get_monthly_stats rnd now h)
                       then 1 - of_int (price r) / 40
                       else if current_average (get_monthly_stats rnd now h) < 20
                       then of_int (price r) / 40
                       else 1 / 2)
                  \<and> (25 < current_average (get_monthly_stats rnd now h) \<and> 40 < price r
                       \<longrightarrow> budget_score row < 0))
               rs rows"
proof -
  obtain ks where ks: "list_all2 (\<lambda>r k. get_days_since_visit now (name r) h = Inr k) rs ks"
    and cs: "calculate_scores rnd now rs h d =
               Inr (map2 (score_row (get_monthly_stats rnd now h) (is_thursday d)) rs ks)"
    using calculate_scores_ok [OF assms(2), where rnd = rnd and now = now and rs = rs and d = d] by blast
  have "list_all2
          (\<lambda>r row. price row = price r
             \<and> budget_score row =
                 (if 25 < current_average (get_monthly_stats rnd now h)
                  then 1 - of_int (price r) / 40
                  else if current_average (get_monthly_stats rnd now h) < 20
                  then of_int (price r) / 40
                  else 1 / 2)
             \<and> (25 < current_average (get_monthly_stats rnd now h) \<and> 40 < price r
                  \<longrightarrow> budget_score row < 0))
          rs (map2 (score_row (get_monthly_stats rnd now h) (is_thursday d)) rs ks)"
    using ks
  proof (rule list_all2_map2)
    fix r k
    show "price (score_row (get_monthly_stats rnd now h) (is_thursday d) r k) = price r
       \<and> budget_score (score_row (get_monthly_stats rnd now h) (is_thursday d) r k) =
           (if 25 < current_average (get_monthly_stats rnd now h)
            then 1 - of_int (price r) / 40
            else if current_average (get_monthly_stats rnd now h) < 20
            then of_int (price r) / 40
            else 1 / 2)
       \<and> (25 < current_average (get_monthly_stats rnd now h) \<and> 40 < price r
            \<longrightarrow> budget_score (score_row (get_monthly_stats rnd now h) (is_thursday d) r k) < 0)"
      using assms(1) by (simp add: score_row_def Let_def)
  qed
  with cs show ?thesis by blast
qed

theorem budget_score_bands_witness:
  "\<not> is_thursday ex_monday \<and> iso_dates (Some [visit_a, visit_b])
   \<and> current_average (get_monthly_stats round_half_even ex_monday (Some [visit_a, visit_b])) = 61 / 2
   \<and> (\<exists>rows. calculate_scores round_half_even ex_monday [cafe_a] (Some [visit_a, visit_b]) ex_monday = Inr rows
          \<and> map budget_score rows = [5 / 8])"
proof -
  have a: "\<not> is_thursday ex_monday" by (rule day_kind_examples)
  have b: "iso_dates (Some [visit_a, visit_b])" by (rule iso_dates_examples)
  have c: "current_average (get_monthly_stats round_half_even ex_monday (Some [visit_a, visit_b])) = 61 / 2"
    by (simp add: monthly_stats_examples)
  obtain rows where
    "calculate_scores round_half_even ex_monday [cafe_a] (Some [visit_a, visit_b]) ex_monday = Inr rows"
    and "list_all2 (\<lambda>r row. price row = price r \<and> budget_score row = 5 / 8) [cafe_a] rows"
    using budget_score_bands [OF a b, where rnd = round_half_even and now = ex_monday
        and rs = "[cafe_a]"]
    by (auto simp: c cafe_a_def list_all2_Cons1)
  then have "\<exists>rows. calculate_scores round_half_even ex_monday [cafe_a] (Some [visit_a, visit_b]) ex_monday
                      = Inr rows \<and> map budget_score rows = [5 / 8]"
    by (auto simp: list_all2_Cons1)
  with a b c show ?thesis by blast
qed

text \<open>
  C3. For every restaurant table and every history of the data model, on Thursday the
  \<^verbatim>\<open>final_score\<close> of every row is its \<^verbatim>\<open>recency_score\<close>, a function of the days since
  the last visit alone, whatever the price and the monthly statistics; on any other day it
  is half the \<^verbatim>\<open>recency_score\<close> plus half the \<^verbatim>\<open>budget_score\<close>.
\<close>

theorem final_score_blend:
  assumes "iso_dates h"
  shows "(\<exists>rows. calculate_scores rnd now rs h d = Inr rows \<and> length rows = length rs
            \<and> (\<forall>row \<in> set rows.
                  (is_thursday d \<longrightarrow>
                     final_score row = recency_score row
                     \<and> final_score row = of_int (min (days_since_visit row) 30) / 30)
                  \<and> (\<not> is_thursday d \<longrightarrow>
                     final_score row = 1 / 2 * recency_score row + 1 / 2 * budget_score row)))
         \<and> (\<forall>stats stats' r r' k.
               final_score (score_row stats True r k) = final_score (score_row stats' True r' k))"
proof -
  obtain ks where ks: "list_all2 (\<lambda>r k. get_days_since_visit now (name r) h = Inr k) rs ks"
    and cs: "calculate_scores rnd now rs h d =
               Inr (map2 (score_row (get_monthly_stats rnd now h) (is_thursday d)) rs ks)"
    using calculate_scores_ok [OF assms, where rnd = rnd and now = now and rs = rs and d = d] by blast
  define rows where "rows = map2 (score_row (get_monthly_stats rnd now h) (is_thursday d)) rs ks"
  have len: "length rows = length rs"
    using list_all2_lengthD [OF ks] by (simp add: rows_def)
  have each: "(is_thursday d \<longrightarrow>
                 final_score row = recency_score row
                 \<and> final_score row = of_int (min (days_since_visit row) 30) / 30)
              \<and> (\<not> is_thursday d \<longrightarrow>
                 final_score row = 1 / 2 * recency_score row + 1 / 2 * budget_score row)"
    if mem: "row \<in> set rows" for row
  proof -
    obtain r k where "row = score_row (get_monthly_stats rnd now h) (is_thursday d) r k"
      using in_set_map2 [of row "score_row (get_monthly_stats rnd now h) (is_thursday d)" rs ks] mem
      unfolding rows_def by blast
    then show ?thesis by (simp add: score_row_def Let_def)
  qed
  have "\<forall>stats stats' r r' k.
          final_score (score_row stats True r k) = final_score (score_row stats' True r' k)"
    by (simp add: score_row_def Let_def)
  with cs len each show ?thesis unfolding rows_def by blast
qed

theorem final_score_blend_witness:
  "iso_dates (Some [visit_a, visit_b]) \<and> is_thursday ex_thursday \<and> \<not> is_thursday ex_monday
   \<and> (\<exists>rows. calculate_scores round_half_even ex_monday [cafe_a] (Some [visit_a, visit_b]) ex_thursday = Inr rows
          \<and> rows \<noteq> [] \<and> map final_score rows = map recency_score rows)
   \<and> (\<exists>rows. calculate_scores round_half_even ex_monday [cafe_a] (Some [visit_a, visit_b]) ex_monday = Inr rows
          \<and> rows \<noteq> []
          \<and> map final_score rows
              = map (\<lambda>row. 1 / 2 * recency_score row + 1 / 2 * budget_score row) rows)"
proof -
  have a: "iso_dates (Some [visit_a, visit_b])" by (rule iso_dates_examples)
  have t: "is_thursday ex_thursday" and m: "\<not> is_thursday ex_monday"
    by (rule day_kind_examples)+
  have "\<exists>rows. calculate_scores round_half_even ex_monday [cafe_a] (Some [visit_a, visit_b]) ex_thursday = Inr rows
          \<and> rows \<noteq> [] \<and> map final_score rows = map recency_score rows"
    using final_score_blend [OF a, where rnd = round_half_even and now = ex_monday
        and rs = "[cafe_a]" and d = ex_thursday] t by fastforce
  moreover
  have "\<exists>rows. calculate_scores round_half_even ex_monday [cafe_a] (Some [visit_a, visit_b]) ex_monday = Inr rows
          \<and> rows \<noteq> []
          \<and> map final_score rows
              = map (\<lambda>row. 1 / 2 * recency_score row + 1 / 2 * budget_score row) rows"
    using final_score_blend [OF a, where rnd = round_half_even and now = ex_monday
        and rs = "[cafe_a]" and d = ex_monday] m by fastforce
  ultimately show ?thesis using a t m by blast
qed

text \<open>
  C4. The monthly statistics of every history are over the visits of the current month:
  the visits whose date begins with the year and month of the clock, which for a date in
  ISO form are the visits of that year and month. With no such visit the statistics are all
  zero, the status green and the target 22.5. With \<open>n > 0\<close> such visits,
  \<^verbatim>\<open>days_visited\<close> is \<open>n\<close>, \<^verbatim>\<open>total_spent\<close> the sum of their prices, \<^verbatim>\<open>current_average\<close>
  is \<^verbatim>\<open>round\<close> of the average \<open>total / n\<close> to one decimal (a multiple of a tenth, no
  further than a twentieth from the average), and the status is green for an average below
  20, yellow from 20 to 25, both included, and red above 25.
\<close>

theorem monthly_stats_spec:
  "get_month_visits now h None None
     = filter (\<lambda>v. prefix (zero_pad 4 (year now) @ ''-'' @ zero_pad 2 (month now)) (v_date v))
         (get_visits h)
   \<and> (year now < 10000 \<and> month now < 100 \<and> year dt < 10000 \<and> month dt < 100 \<longrightarrow>
        (prefix (zero_pad 4 (year now) @ ''-'' @ zero_pad 2 (month now)) (strftime_ymd dt)
           \<longleftrightarrow> year dt = year now \<and> month dt = month now))
   \<and> (get_month_visits now h None None = [] \<longrightarrow>
        get_monthly_stats rnd now h =
          \<lparr>days_visited = 0, total_spent = 0, current_average = 0, status = ''green'',
           target_daily = 45 / 2\<rparr>)
   \<and> (get_month_visits now h None None \<noteq> [] \<longrightarrow>
        (let visits = get_month_visits now h None None;
             n = length visits;
             total = sum_list (map v_price visits);
             average = total / of_nat n;
             s = get_monthly_stats rnd now h
         in days_visited s = n \<and> total_spent s = total
            \<and> current_average s = rnd average 1
            \<and> (rounds_to_nearest rnd \<longrightarrow>
                  (\<exists>k::int. current_average s = of_int k / 10)
                  \<and> \<bar>current_average s - average\<bar> \<le> 1 / 20)
            \<and> target_daily s = 45 / 2
            \<and> (average < 20 \<longrightarrow> status s = ''green'')
            \<and> (20 \<le> average \<and> average \<le> 25 \<longrightarrow> status s = ''yellow'')
            \<and> (25 < average \<longrightarrow> status s = ''red'')))"
proof (intro conjI impI)
  show "get_month_visits now h None None
     = filter (\<lambda>v. prefix (zero_pad 4 (year now) @ ''-'' @ zero_pad 2 (month now)) (v_date v))
         (get_visits h)"
    by (simp add: get_month_visits_def or_default_def)
next
  assume "year now < 10000 \<and> month now < 100 \<and> year dt < 10000 \<and> month dt < 100"
  then show "prefix (zero_pad 4 (year now) @ ''-'' @ zero_pad 2 (month now)) (strftime_ymd dt)
           \<longleftrightarrow> year dt = year now \<and> month dt = month now"
    using month_prefix_iff [of now dt] by blast
next
  assume "get_month_visits now h None None = []"
  then show "get_monthly_stats rnd now h =
        \<lparr>days_visited = 0, total_spent = 0, current_average = 0, status = ''green'',
         target_daily = 45 / 2\<rparr>"
    by (simp add: get_monthly_stats_def)
next
  assume ne: "get_month_visits now h None None \<noteq> []"
  define visits where "visits = get_month_visits now h None None"
  define average where "average = sum_list (map v_price visits) / of_nat (length visits)"
  have pos: "0 < length visits" using ne by (simp add: visits_def)
  have stats: "get_monthly_stats rnd now h =
      \<lparr>days_visited = length visits, total_spent = sum_list (map v_price visits),
       current_average = rnd average 1,
       status = (if average < 20 then ''green'' else if average \<le> 25 then ''yellow''
                 else ''red''),
       target_daily = 45 / 2\<rparr>"
    using ne pos by (simp add: get_monthly_stats_def Let_def visits_def average_def)
  have near: "rounds_to_nearest rnd \<longrightarrow>
                (\<exists>k::int. rnd average 1 = of_int k / 10) \<and> \<bar>rnd average 1 - average\<bar> \<le> 1 / 20"
  proof
    assume "rounds_to_nearest rnd"
    then have "(\<exists>k::int. rnd average 1 = of_int k / 10 ^ 1)
                 \<and> \<bar>rnd average 1 - average\<bar> \<le> 1 / (2 * 10 ^ 1)"
      unfolding rounds_to_nearest_def by blast
    then show "(\<exists>k::int. rnd average 1 = of_int k / 10) \<and> \<bar>rnd average 1 - average\<bar> \<le> 1 / 20"
      by simp
  qed
  show "let visits = get_month_visits now h None None;
             n = length visits;
             total = sum_list (map v_price visits);
             average = total / of_nat n;
             s = get_monthly_stats rnd now h
         in days_visited s = n \<and> total_spent s = total
            \<and> current_average s = rnd average 1
            \<and> (rounds_to_nearest rnd \<longrightarrow>
                  (\<exists>k::int. current_average s = of_int k / 10)
                  \<and> \<bar>current_average s - average\<bar> \<le> 1 / 20)
            \<and> target_daily s = 45 / 2
            \<and> (average < 20 \<longrightarrow> status s = ''green'')
            \<and> (20 \<le> average \<and> average \<le> 25 \<longrightarrow> status s = ''yellow'')
            \<and> (25 < average \<longrightarrow> status s = ''red'')"
    unfolding Let_def visits_def [symmetric] average_def [symmetric] stats
    using near by simp
qed

theorem monthly_stats_spec_witness:
  "v_date visit_may = strftime_ymd \<lparr>year = 2024, month = 5, day = 30\<rparr>
   \<and> get_month_visits ex_monday (Some [visit_may, visit_a, visit_b]) None None
       = [visit_a, visit_b]
   \<and> get_month_visits ex_monday None None None = []
   \<and> get_monthly_stats round_half_even ex_monday None =
       \<lparr>days_visited = 0, total_spent = 0, current_average = 0, status = ''green'',
        target_daily = 45 / 2\<rparr>
   \<and> rounds_to_nearest round_half_even
   \<and> get_monthly_stats round_half_even ex_monday (Some [visit_may, visit_a, visit_b]) =
       \<lparr>days_visited = 2, total_spent = 61, current_average = 61 / 2, status = ''red'',
        target_daily = 45 / 2\<rparr>"
proof -
  have dm: "v_date visit_may = strftime_ymd \<lparr>year = 2024, month = 5, day = 30\<rparr>"
    and da: "v_date visit_a = strftime_ymd \<lparr>year = 2024, month = 6, day = 2\<rparr>"
    and db: "v_date visit_b = strftime_ymd \<lparr>year = 2024, month = 6, day = 5\<rparr>"
    by (simp_all add: example_defs format_defs)
  note t = monthly_stats_spec [where rnd = round_half_even and now = ex_monday
      and h = "Some [visit_may, visit_a, visit_b]"]
  have pm: "\<not> prefix (zero_pad 4 (year ex_monday) @ ''-'' @ zero_pad 2 (month ex_monday))
                (v_date visit_may)"
    using t [where dt = "\<lparr>year = 2024, month = 5, day = 30\<rparr>"]
    unfolding dm by (simp add: ex_monday_def)
  have pa: "prefix (zero_pad 4 (year ex_monday) @ ''-'' @ zero_pad 2 (month ex_monday))
              (v_date visit_a)"
    using t [where dt = "\<lparr>year = 2024, month = 6, day = 2\<rparr>"]
    unfolding da by (simp add: ex_monday_def)
  have pb: "prefix (zero_pad 4 (year ex_monday) @ ''-'' @ zero_pad 2 (month ex_monday))
              (v_date visit_b)"
    using t [where dt = "\<lparr>year = 2024, month = 6, day = 5\<rparr>"]
    unfolding db by (simp add: ex_monday_def)
  have f: "get_month_visits ex_monday (Some [visit_may, visit_a, visit_b]) None None
             = [visit_a, visit_b]"
    using t [where dt = ex_monday] pm pa pb by (simp add: get_visits_def)
  have e: "get_month_visits ex_monday None None None = []"
    by (rule month_visits_examples)
  have z: "get_monthly_stats round_half_even ex_monday None =
       \<lparr>days_visited = 0, total_spent = 0, current_average = 0, status = ''green'',
        target_daily = 45 / 2\<rparr>"
    using monthly_stats_spec [where rnd = round_half_even and now = ex_monday and h = None
        and dt = ex_monday] e by simp
  have n: "rounds_to_nearest round_half_even" by (rule round_half_even_nearest)
  have r: "round_half_even (61 / 2) (Suc 0) = 61 / 2"
    by (simp add: round_half_even_def Let_def)
  have "days_visited (get_monthly_stats round_half_even ex_monday
                        (Some [visit_may, visit_a, visit_b])) = 2
      \<and> total_spent (get_monthly_stats round_half_even ex_monday
                        (Some [visit_may, visit_a, visit_b])) = 61
      \<and> current_average (get_monthly_stats round_half_even ex_monday
                        (Some [visit_may, visit_a, visit_b])) = 61 / 2
      \<and> target_daily (get_monthly_stats round_half_even ex_monday
                        (Some [visit_may, visit_a, visit_b])) = 45 / 2
      \<and> status (get_monthly_stats round_half_even ex_monday
                        (Some [visit_may, visit_a, visit_b])) = ''red''"
    using t [where dt = ex_monday]
    by (simp add: f Let_def) (simp add: visit_a_def visit_b_def r)
  then have s: "get_monthly_stats round_half_even ex_monday (Some [visit_may, visit_a, visit_b]) =
       \<lparr>days_visited = 2, total_spent = 61, current_average = 61 / 2, status = ''red'',
        target_daily = 45 / 2\<rparr>"
    by (cases "get_monthly_stats round_half_even ex_monday (Some [visit_may, visit_a, visit_b])")
       simp
  from dm f e z n s show ?thesis by (intro conjI)
qed

lemma days_since_visit_examples:
  "get_days_since_visit ex_monday ''A'' (Some [visit_a]) = Inr 8"
  "get_days_since_visit ex_monday ''B'' (Some [visit_a]) = Inr 999"
  "get_days_since_visit ex_monday ''A'' (Some [visit_ahead]) = Inr (- 1)"
  by (simp_all add: get_days_since_visit_def get_visits_def visit_a_def visit_ahead_def
      strptime_examples days_between_def)
    (simp_all add: ex_monday_def calendar_defs)

lemma never_visited:
  assumes "n \<notin> v_restaurant ` set (get_visits h)"
  shows "get_days_since_visit now n h = Inr 999"
proof -
  have "filter (\<lambda>v. v_restaurant v = n) (get_visits h) = []"
    using assms by (auto simp: filter_empty_conv)
  then show ?thesis by (simp add: get_days_since_visit_def)
qed

text \<open>
  The recency score on every restaurant table and every history of the data model:
  \<^verbatim>\<open>recency_score\<close> is \<open>min(days_since_visit, 30) / 30\<close>, where \<^verbatim>\<open>days_since_visit\<close> is
  what \<^verbatim>\<open>get_days_since_visit\<close> returns (999 for a restaurant never visited). It does
  not decrease when \<^verbatim>\<open>days_since_visit\<close> grows, is never above 1, and is 1 from 30 days
  on. It is at least 0 exactly when \<^verbatim>\<open>days_since_visit\<close> is.
\<close>

lemma recency_score_ramp:
  assumes "iso_dates h"
  shows "(\<exists>rows. calculate_scores rnd now rs h d = Inr rows
            \<and> list_all2
                (\<lambda>r row. get_days_since_visit now (name r) h = Inr (days_since_visit row)) rs rows
            \<and> (\<forall>row \<in> set rows.
                  recency_score row = of_int (min (days_since_visit row) 30) / 30
                  \<and> recency_score row \<le> 1
                  \<and> (30 \<le> days_since_visit row \<longrightarrow> recency_score row = 1)
                  \<and> (0 \<le> recency_score row \<longleftrightarrow> 0 \<le> days_since_visit row)))
         \<and> (\<forall>r \<in> set rs. name r \<notin> v_restaurant ` set (get_visits h) \<longrightarrow>
               get_days_since_visit now (name r) h = Inr 999)
         \<and> (\<forall>stats thursday r k k'. k \<le> k' \<longrightarrow>
               recency_score (score_row stats thursday r k)
                 \<le> recency_score (score_row stats thursday r k'))"
proof -
  obtain ks where ks: "list_all2 (\<lambda>r k. get_days_since_visit now (name r) h = Inr k) rs ks"
    and cs: "calculate_scores rnd now rs h d =
               Inr (map2 (score_row (get_monthly_stats rnd now h) (is_thursday d)) rs ks)"
    using calculate_scores_ok [OF assms, where rnd = rnd and now = now and rs = rs and d = d] by blast
  define rows where "rows = map2 (score_row (get_monthly_stats rnd now h) (is_thursday d)) rs ks"
  have days: "list_all2
      (\<lambda>r row. get_days_since_visit now (name r) h = Inr (days_since_visit row)) rs rows"
    unfolding rows_def using ks
  proof (rule list_all2_map2)
    fix r :: restaurant and k :: int
    assume "get_days_since_visit now (name r) h = Inr k"
    then show "get_days_since_visit now (name r) h =
        Inr (days_since_visit (score_row (get_monthly_stats rnd now h) (is_thursday d) r k))"
      by (simp add: score_row_def Let_def)
  qed
  have each: "recency_score row = of_int (min (days_since_visit row) 30) / 30
              \<and> recency_score row \<le> 1
              \<and> (30 \<le> days_since_visit row \<longrightarrow> recency_score row = 1)
              \<and> (0 \<le> recency_score row \<longleftrightarrow> 0 \<le> days_since_visit row)"
    if mem: "row \<in> set rows" for row
  proof -
    obtain r k where "row = score_row (get_monthly_stats rnd now h) (is_thursday d) r k"
      using in_set_map2 [of row "score_row (get_monthly_stats rnd now h) (is_thursday d)" rs ks] mem
      unfolding rows_def by blast
    then show ?thesis by (auto simp: score_row_def Let_def min_def)
  qed
  have mono: "\<forall>stats thursday r k k'. k \<le> k' \<longrightarrow>
      recency_score (score_row stats thursday r k) \<le> recency_score (score_row stats thursday r k')"
    by (auto simp: score_row_def Let_def min_def)
  have never: "\<forall>r \<in> set rs. name r \<notin> v_restaurant ` set (get_visits h) \<longrightarrow>
      get_days_since_visit now (name r) h = Inr 999"
    using never_visited by blast
  from cs days each mono never show ?thesis unfolding rows_def by blast
qed

lemma recency_score_ramp_example:
  "iso_dates (Some [visit_a])
   \<and> (\<exists>rows. calculate_scores round_half_even ex_monday [cafe_a, cafe_b] (Some [visit_a]) ex_monday = Inr rows
          \<and> map days_since_visit rows = [8, 999]
          \<and> map recency_score rows = [4 / 15, 1])"
proof -
  have a: "iso_dates (Some [visit_a])" by (rule iso_dates_examples)
  obtain rows where cs: "calculate_scores round_half_even ex_monday [cafe_a, cafe_b] (Some [visit_a]) ex_monday
                           = Inr rows"
    and days: "list_all2
        (\<lambda>r row. get_days_since_visit ex_monday (name r) (Some [visit_a])
                    = Inr (days_since_visit row))
        [cafe_a, cafe_b] rows"
    and each: "\<forall>row \<in> set rows.
        recency_score row = of_int (min (days_since_visit row) 30) / 30"
    using recency_score_ramp [OF a, where rnd = round_half_even and now = ex_monday
        and rs = "[cafe_a, cafe_b]" and d = ex_monday] by blast
  from days obtain x y where rows: "rows = [x, y]"
    and x: "get_days_since_visit ex_monday (name cafe_a) (Some [visit_a])
              = Inr (days_since_visit x)"
    and y: "get_days_since_visit ex_monday (name cafe_b) (Some [visit_a])
              = Inr (days_since_visit y)"
    by (auto simp: list_all2_Cons1)
  have dx: "days_since_visit x = 8" and dy: "days_since_visit y = 999"
    using x y by (simp_all add: cafe_a_def cafe_b_def days_since_visit_examples)
  have "map days_since_visit rows = [8, 999]" by (simp add: rows dx dy)
  moreover have "map recency_score rows = [4 / 15, 1]"
    using each by (simp add: rows dx dy)
  ultimately have "\<exists>rows. calculate_scores round_half_even ex_monday [cafe_a, cafe_b] (Some [visit_a]) ex_monday
                      = Inr rows
          \<and> map days_since_visit rows = [8, 999]
          \<and> map recency_score rows = [4 / 15, 1]"
    using cs by (intro exI [of _ rows] conjI)
  with a show ?thesis by (rule conjI)
qed

text \<open>
  C2. The claim puts \<^verbatim>\<open>recency_score\<close> in the interval from 0 to 1, and so does the
  comment of \<^verbatim>\<open>calculate_scores\<close> (\<^verbatim>\<open>recency score (0-1, higher = not visited recently)\<close>),
  whose clamp \<^verbatim>\<open>min(x, 30)\<close> bounds the score from above only. With a visit to A dated the
  day after the clock's day, the days since the visit are \<open>-1\<close> and the code gives A the
  \<^verbatim>\<open>recency_score\<close> \<open>-1/30\<close>.
\<close>

theorem recency_score_below_zero:
  "iso_dates (Some [visit_ahead])
   \<and> get_days_since_visit ex_monday ''A'' (Some [visit_ahead]) = Inr (- 1)
   \<and> calculate_scores round_half_even ex_monday [cafe_a] (Some [visit_ahead]) ex_monday =
       Inr [\<lparr>name = ''A'', area = ''North'', specific_day = [], item = ''Soup'',
             travel_time = 5, price = 15, days_since_visit = - 1,
             recency_score = - 1 / 30, budget_score = 3 / 8, final_score = 41 / 240\<rparr>]"
proof -
  have "get_month_visits ex_monday (Some [visit_ahead]) None None = [visit_ahead]"
    by (simp add: get_month_visits_def or_default_def get_visits_def example_defs format_defs)
  then have "get_monthly_stats round_half_even ex_monday (Some [visit_ahead]) =
     \<lparr>days_visited = 1, total_spent = 15, current_average = 15, status = ''green'',
      target_daily = 45 / 2\<rparr>"
    by (simp add: get_monthly_stats_def Let_def) (simp add: visit_ahead_def round_half_even_def Let_def)
  then have "calculate_scores round_half_even ex_monday [cafe_a] (Some [visit_ahead]) ex_monday =
       Inr [\<lparr>name = ''A'', area = ''North'', specific_day = [], item = ''Soup'',
             travel_time = 5, price = 15, days_since_visit = - 1,
             recency_score = - 1 / 30, budget_score = 3 / 8, final_score = 41 / 240\<rparr>]"
    by (simp add: calculate_scores_def cafe_a_def days_since_visit_examples score_row_def
        day_kind_examples Let_def)
  then show ?thesis using iso_dates_examples days_since_visit_examples by simp
qed

lemma mset_filter_same:
  "mset (filter P xs) = mset xs \<longleftrightarrow> (\<forall>x \<in> set xs. P x)"
  using filter_mset_eq_conv [of P "mset xs" "mset xs"] by simp

text \<open>
  C7, as the code has it. For every stored visit list, \<^verbatim>\<open>add_visit\<close> with a date and then
  \<^verbatim>\<open>delete_visit\<close> with the same date and restaurant leave the prior list without any of its
  visits of that date and restaurant: \<^verbatim>\<open>delete_visit\<close> removes every match, not only the
  visit just added. The prior list comes back, as a multiset and in its order, exactly
  when it had no visit of that date and restaurant.
\<close>

theorem add_delete_round_trip:
  assumes "date_arg \<noteq> []"
  shows "\<exists>vs'. add_then_delete now (Some vs) restaurant_arg price_arg item_arg date_arg
                 = Inr (True, Some vs')
           \<and> vs' = filter (\<lambda>v. \<not> (v_date v = date_arg \<and> v_restaurant v = restaurant_arg)) vs
           \<and> (mset vs' = mset vs
                \<longleftrightarrow> (\<forall>v \<in> set vs. \<not> (v_date v = date_arg \<and> v_restaurant v = restaurant_arg)))
           \<and> (vs' = vs
                \<longleftrightarrow> (\<forall>v \<in> set vs. \<not> (v_date v = date_arg \<and> v_restaurant v = restaurant_arg)))"
proof -
  define vs' where
    "vs' = filter (\<lambda>v. \<not> (v_date v = date_arg \<and> v_restaurant v = restaurant_arg)) vs"
  have run: "add_then_delete now (Some vs) restaurant_arg price_arg item_arg date_arg
               = Inr (True, Some vs')"
    using assms by (simp add: add_then_delete_def add_visit_def delete_visit_def vs'_def)
  have m: "mset vs' = mset vs
             \<longleftrightarrow> (\<forall>v \<in> set vs. \<not> (v_date v = date_arg \<and> v_restaurant v = restaurant_arg))"
    unfolding vs'_def by (rule mset_filter_same)
  have l: "vs' = vs
             \<longleftrightarrow> (\<forall>v \<in> set vs. \<not> (v_date v = date_arg \<and> v_restaurant v = restaurant_arg))"
    unfolding vs'_def by (rule filter_id_conv)
  from run m l show ?thesis unfolding vs'_def by blast
qed

theorem add_delete_round_trip_witness:
  "''2024-06-09'' \<noteq> []
   \<and> add_then_delete ex_monday (Some [visit_a]) ''A'' 12 ''Soup'' ''2024-06-09''
       = Inr (True, Some [visit_a])"
proof -
  have ne: "''2024-06-09'' \<noteq> []" by simp
  have "\<forall>v \<in> set [visit_a]. \<not> (v_date v = ''2024-06-09'' \<and> v_restaurant v = ''A'')"
    by (simp add: visit_a_def)
  then show ?thesis
    using add_delete_round_trip [OF ne, of ex_monday "[visit_a]" "''A''" 12 "''Soup''"]
    by auto
qed

text \<open>
  C7 as stated fails: the store holds one visit to A of 2 June; a second visit to A of
  2 June is added and then deleted by its date and restaurant; the store is left empty.
\<close>

theorem add_delete_round_trip_counterexample:
  "add_then_delete ex_monday (Some [visit_a]) ''A'' 12 ''Soup'' ''2024-06-02''
     = Inr (True, Some [])
   \<and> mset ([] :: visit list) \<noteq> mset [visit_a]"
  by (simp add: add_then_delete_def add_visit_def delete_visit_def visit_a_def)

text \<open>
  C9, as the code has it. On a day that is not Thursday the explanation is the sentences
  about recency followed by at most one sentence about the budget, chosen by the
  \<^verbatim>\<open>current_average\<close> that also chooses the \<^verbatim>\<open>budget_score\<close>: above 25 the sentence with
  the price and the average; from 20 to 25 the sentence with the average; below 20 the
  sentence with the average when the price is above 25, and no sentence about the budget
  when the price is 25 or less.
\<close>

theorem explanation_budget_clause:
  assumes "\<not> is_thursday d"
  shows "explain_recommendation rnd str_num now reco h (Some d) =
           join_space
             (recency_parts (r_days_since_visit reco)
              @ budget_parts str_num False (r_price reco)
                  (current_average (get_monthly_stats rnd now h)))
         \<and> length (budget_parts str_num False (r_price reco)
                     (current_average (get_monthly_stats rnd now h))) \<le> 1
         \<and> (budget_parts str_num False (r_price reco)
                (current_average (get_monthly_stats rnd now h)) = []
              \<longleftrightarrow> current_average (get_monthly_stats rnd now h) < 20 \<and> r_price reco \<le> 25)
         \<and> (25 < current_average (get_monthly_stats rnd now h) \<longrightarrow>
               budget_parts str_num False (r_price reco)
                 (current_average (get_monthly_stats rnd now h)) =
               [''At '' @ str_int (r_price reco)
                  @ '' SAR, this helps bring your monthly average down from ''
                  @ str_num (current_average (get_monthly_stats rnd now h)) @ '' SAR.''])
         \<and> (current_average (get_monthly_stats rnd now h) < 20 \<and> 25 < r_price reco \<longrightarrow>
               budget_parts str_num False (r_price reco)
                 (current_average (get_monthly_stats rnd now h)) =
               [''Your average is low ('' @ str_num (current_average (get_monthly_stats rnd now h))
                  @ '' SAR), so you can treat yourself today!''])
         \<and> (20 \<le> current_average (get_monthly_stats rnd now h)
              \<and> current_average (get_monthly_stats rnd now h) \<le> 25 \<longrightarrow>
               budget_parts str_num False (r_price reco)
                 (current_average (get_monthly_stats rnd now h)) =
               [''Your monthly average ('' @ str_num (current_average (get_monthly_stats rnd now h))
                  @ '' SAR) is on track.''])
         \<and> (\<forall>r k. budget_score (score_row (get_monthly_stats rnd now h) False r k) =
               (if 25 < current_average (get_monthly_stats rnd now h)
                then 1 - of_int (price r) / 40
                else if current_average (get_monthly_stats rnd now h) < 20
                then of_int (price r) / 40
                else 1 / 2))"
proof -
  have e: "explain_recommendation rnd str_num now reco h (Some d) =
           join_space
             (recency_parts (r_days_since_visit reco)
              @ budget_parts str_num False (r_price reco)
                  (current_average (get_monthly_stats rnd now h)))"
    using assms by (simp add: explain_recommendation_def Let_def)
  have s: "\<forall>r k. budget_score (score_row (get_monthly_stats rnd now h) False r k) =
               (if 25 < current_average (get_monthly_stats rnd now h)
                then 1 - of_int (price r) / 40
                else if current_average (get_monthly_stats rnd now h) < 20
                then of_int (price r) / 40
                else 1 / 2)"
    by (simp add: score_row_def Let_def)
  have n: "length (budget_parts str_num False (r_price reco)
                     (current_average (get_monthly_stats rnd now h))) \<le> 1"
    by (simp add: budget_parts_def)
  have z: "budget_parts str_num False (r_price reco)
                (current_average (get_monthly_stats rnd now h)) = []
              \<longleftrightarrow> current_average (get_monthly_stats rnd now h) < 20 \<and> r_price reco \<le> 25"
    by (auto simp: budget_parts_def)
  have o: "25 < current_average (get_monthly_stats rnd now h) \<longrightarrow>
               budget_parts str_num False (r_price reco)
                 (current_average (get_monthly_stats rnd now h)) =
               [''At '' @ str_int (r_price reco)
                  @ '' SAR, this helps bring your monthly average down from ''
                  @ str_num (current_average (get_monthly_stats rnd now h)) @ '' SAR.'']"
    by (simp add: budget_parts_def)
  have u: "current_average (get_monthly_stats rnd now h) < 20 \<and> 25 < r_price reco \<longrightarrow>
               budget_parts str_num False (r_price reco)
                 (current_average (get_monthly_stats rnd now h)) =
               [''Your average is low ('' @ str_num (current_average (get_monthly_stats rnd now h))
                  @ '' SAR), so you can treat yourself today!'']"
    by (simp add: budget_parts_def)
  have t: "20 \<le> current_average (get_monthly_stats rnd now h)
              \<and> current_average (get_monthly_stats rnd now h) \<le> 25 \<longrightarrow>
               budget_parts str_num False (r_price reco)
                 (current_average (get_monthly_stats rnd now h)) =
               [''Your monthly average ('' @ str_num (current_average (get_monthly_stats rnd now h))
                  @ '' SAR) is on track.'']"
    by (simp add: budget_parts_def)
  from e n z o u t s show ?thesis by (intro conjI)
qed

lemma str_examples:
  "str_int 15 = ''15''" "str_tenths (61 / 2) = ''30.5''"
proof -
  show "str_int 15 = ''15''"
    by (simp add: str_int_def str_nat.simps digit_char_def)
  have "\<lfloor>61 / 2 :: rat\<rfloor> = 30" by (simp add: floor_eq_iff)
  then show "str_tenths (61 / 2) = ''30.5''"
    by (simp add: str_tenths_def str_nat.simps digit_char_def)
qed
theorem explanation_budget_clause_witness:
  "\<not> is_thursday ex_monday
   \<and> current_average (get_monthly_stats round_half_even ex_monday (Some [visit_a, visit_b])) = 61 / 2
   \<and> explain_recommendation round_half_even str_tenths ex_monday reco_a (Some [visit_a, visit_b])
       (Some ex_monday)
     = ''You've never been here before! At 15 SAR, this helps bring your monthly average down from 30.5 SAR.''"
proof -
  have a: "\<not> is_thursday ex_monday" by (rule day_kind_examples)
  have c: "current_average (get_monthly_stats round_half_even ex_monday (Some [visit_a, visit_b])) = 61 / 2"
    by (simp add: monthly_stats_examples)
  have "explain_recommendation round_half_even str_tenths ex_monday reco_a (Some [visit_a, visit_b])
       (Some ex_monday)
     = ''You've never been here before! At 15 SAR, this helps bring your monthly average down from 30.5 SAR.''"
    using explanation_budget_clause [OF a, where rnd = round_half_even and str_num = str_tenths
        and now = ex_monday and reco = reco_a and h = "Some [visit_a, visit_b]"]
    by (simp add: c reco_a_def recency_parts_def str_examples)
  with a c show ?thesis by simp
qed

text \<open>
  C9 as stated fails: on a Monday with no visit recorded (average 0, below 20) and a
  recommended price of 15, the explanation has no sentence about the budget.
\<close>

theorem explanation_budget_clause_counterexample:
  "\<not> is_thursday ex_monday
   \<and> current_average (get_monthly_stats round_half_even ex_monday (Some [])) = 0
   \<and> budget_parts str_tenths False (r_price reco_a)
       (current_average (get_monthly_stats round_half_even ex_monday (Some []))) = []
   \<and> explain_recommendation round_half_even str_tenths ex_monday reco_a (Some []) (Some ex_monday)
       = ''You've never been here before!''"
proof -
  have a: "\<not> is_thursday ex_monday" by (rule day_kind_examples)
  have c: "current_average (get_monthly_stats round_half_even ex_monday (Some [])) = 0"
    by (simp add: get_monthly_stats_def month_visits_examples)
  have b: "budget_parts str_tenths False (r_price reco_a) 0 = []"
    by (simp add: budget_parts_def reco_a_def)
  have "explain_recommendation round_half_even str_tenths ex_monday reco_a (Some []) (Some ex_monday)
       = ''You've never been here before!''"
    using a b by (simp add: explain_recommendation_def c Let_def)
      (simp add: recency_parts_def reco_a_def)
  with a b c show ?thesis by simp
qed

subsection \<open>The sorting functions and the pick of the best row\<close>

lemma sorts_descending_stable: "sorts_descending stable_sort_values"
proof -
  have "sorted_wrt (\<lambda>a b. final_score b \<le> final_score a) (stable_sort_values xs)" for xs
  proof -
    have "sorted (map final_score (sort_key final_score (rev xs)))" by (rule sorted_sort_key)
    then have "sorted_wrt (\<lambda>a b. final_score a \<le> final_score b)
                 (sort_key final_score (rev xs))"
      by (simp add: sorted_map)
    then show ?thesis by (simp add: stable_sort_values_def sorted_wrt_rev)
  qed
  moreover have "mset (stable_sort_values xs) = mset xs" for xs
    by (simp add: stable_sort_values_def)
  ultimately show ?thesis by (simp add: sorts_descending_def)
qed

lemma sorted_top:
  assumes "sorts_descending srt" and "rows \<noteq> []"
  shows "\<exists>top_row rest. srt rows = top_row # rest \<and> top_row \<in> set rows
           \<and> (\<forall>row \<in> set rows. final_score row \<le> final_score top_row)"
proof -
  have m: "mset (srt rows) = mset rows"
    and s: "sorted_wrt (\<lambda>a b. final_score b \<le> final_score a) (srt rows)"
    using assms(1) by (simp_all add: sorts_descending_def)
  have st: "set (srt rows) = set rows" using m by (rule mset_eq_setD)
  have "srt rows \<noteq> []" using m assms(2) by auto
  then obtain top_row rest where c: "srt rows = top_row # rest" by (cases "srt rows") auto
  have "top_row \<in> set rows" using st c by auto
  moreover have "\<forall>row \<in> set rows. final_score row \<le> final_score top_row"
    using s st c by auto
  ultimately show ?thesis using c by blast
qed

lemma in_set_map2_rel:
  assumes "list_all2 Q rs ks" and "row \<in> set (map2 f rs ks)"
  shows "\<exists>r k. r \<in> set rs \<and> Q r k \<and> row = f r k"
  using assms by (induction rule: list_all2_induct) auto

lemma score_row_fields:
  "name (score_row stats th r k) = name r" "area (score_row stats th r k) = area r"
  "item (score_row stats th r k) = item r" "price (score_row stats th r k) = price r"
  "travel_time (score_row stats th r k) = travel_time r"
  "days_since_visit (score_row stats th r k) = k"
  by (simp_all add: score_row_def Let_def)

text \<open>
  What \<^verbatim>\<open>get_recommendation\<close> does on a work day with a restaurant available: it scores
  the candidates and returns the first row of the sorted table, a row of the highest score.
\<close>

lemma get_recommendation_picks:
  assumes srt: "sorts_descending srt" and iso: "iso_dates h"
    and d: "d = (case date_arg of None \<Rightarrow> now | Some x \<Rightarrow> x)"
    and wd: "is_work_day d" and av: "get_available_restaurants rs d \<noteq> []"
    and c: "cands =
              (if filter (\<lambda>r. name r \<notin> get_recent_restaurant_names now h 7)
                    (get_available_restaurants rs d) = []
               then get_available_restaurants rs d
               else filter (\<lambda>r. name r \<notin> get_recent_restaurant_names now h 7)
                      (get_available_restaurants rs d))"
  shows "\<exists>rows top_row rest r k.
           calculate_scores rnd now cands h d = Inr rows
           \<and> srt rows = top_row # rest
           \<and> top_row \<in> set rows
           \<and> (\<forall>row \<in> set rows. final_score row \<le> final_score top_row)
           \<and> r \<in> set cands
           \<and> get_days_since_visit now (name r) h = Inr k
           \<and> top_row = score_row (get_monthly_stats rnd now h) (is_thursday d) r k
           \<and> get_recommendation rnd srt now rs h date_arg = Inr (Some (top_dict rnd top_row))"
proof -
  have ne: "cands \<noteq> []" using av c by auto
  obtain ks where ks: "list_all2 (\<lambda>r k. get_days_since_visit now (name r) h = Inr k) cands ks"
    and cs: "calculate_scores rnd now cands h d =
               Inr (map2 (score_row (get_monthly_stats rnd now h) (is_thursday d)) cands ks)"
    using calculate_scores_ok [OF iso, where rnd = rnd and now = now and rs = cands and d = d] by blast
  define rows where "rows = map2 (score_row (get_monthly_stats rnd now h) (is_thursday d)) cands ks"
  have "length rows = length cands"
    using list_all2_lengthD [OF ks] by (simp add: rows_def)
  then have "rows \<noteq> []" using ne by auto
  then obtain top_row rest where t: "srt rows = top_row # rest" and mem: "top_row \<in> set rows"
    and mx: "\<forall>row \<in> set rows. final_score row \<le> final_score top_row"
    using sorted_top [OF srt, of rows] by blast
  obtain r k where r: "r \<in> set cands" and k: "get_days_since_visit now (name r) h = Inr k"
    and tr: "top_row = score_row (get_monthly_stats rnd now h) (is_thursday d) r k"
    using in_set_map2_rel [OF ks, of top_row "score_row (get_monthly_stats rnd now h) (is_thursday d)"]
      mem unfolding rows_def by blast
  have "get_recommendation rnd srt now rs h date_arg = Inr (Some (top_dict rnd top_row))"
    using wd av cs t unfolding rows_def [symmetric]
    by (simp add: get_recommendation_def Let_def d [symmetric] c [symmetric])
  with cs t mem mx r k tr show ?thesis unfolding rows_def [symmetric] by blast
qed



lemma available_examples:
  "get_available_restaurants [cafe_a] ex_monday = [cafe_a]"
  "get_available_restaurants [cafe_b] ex_monday = [cafe_b]"
  "get_available_restaurants [cafe_a, cafe_b] ex_monday = [cafe_a, cafe_b]"
  "get_available_restaurants [cafe_a] ex_next_monday = [cafe_a]"
  "get_available_restaurants [cafe_a] ex_saturday = []"
  by (simp_all add: get_available_restaurants_def get_day_name_def WORK_DAYS_def
      weekday_examples cafe_a_def cafe_b_def)





lemma recent_names_examples:
  "get_recent_restaurant_names ex_monday (Some [visit_a]) 7 = {}"
  "get_recent_restaurant_names ex_monday (Some [visit_b]) 7 = {''B''}"
  "get_recent_restaurant_names ex_next_monday (Some [visit_a]) 7 = {}"
proof -
  have c: "strftime_ymd (minus_days ex_monday 7) = ''2024-06-03''"
    "strftime_ymd (minus_days ex_next_monday 7) = ''2024-06-10''"
    by (simp_all add: example_defs calendar_defs format_defs Let_def)
  show "get_recent_restaurant_names ex_monday (Some [visit_a]) 7 = {}"
    "get_recent_restaurant_names ex_monday (Some [visit_b]) 7 = {''B''}"
    "get_recent_restaurant_names ex_next_monday (Some [visit_a]) 7 = {}"
    by (simp_all add: get_recent_restaurant_names_def get_recent_visits_def c get_visits_def
        visit_a_def visit_b_def)
qed

text \<open>
  C6. On a work day with a restaurant available, for every history of the data model:
  when every available restaurant was visited in the window of the last 7 days,
  \<^verbatim>\<open>get_recommendation\<close> scores all the available restaurants and returns one of them;
  otherwise it scores only the available restaurants not visited in the window and
  returns one of those.
\<close>

theorem recent_exclusion_with_fallback:
  assumes "sorts_descending srt" and "iso_dates h"
    and "is_work_day (case date_arg of None \<Rightarrow> now | Some x \<Rightarrow> x)"
    and "get_available_restaurants rs (case date_arg of None \<Rightarrow> now | Some x \<Rightarrow> x) \<noteq> []"
  shows "let d = (case date_arg of None \<Rightarrow> now | Some x \<Rightarrow> x);
             available = get_available_restaurants rs d;
             recent = get_recent_restaurant_names now h 7;
             unvisited = filter (\<lambda>r. name r \<notin> recent) available;
             candidates = (if unvisited = [] then available else unvisited)
         in \<exists>rows top_row r.
              calculate_scores rnd now candidates h d = Inr rows
              \<and> length rows = length candidates
              \<and> top_row \<in> set rows
              \<and> get_recommendation rnd srt now rs h date_arg = Inr (Some (top_dict rnd top_row))
              \<and> r \<in> set candidates \<and> r \<in> set available \<and> r \<in> set rs
              \<and> r_name (top_dict rnd top_row) = name r
              \<and> r_price (top_dict rnd top_row) = price r
              \<and> (unvisited \<noteq> [] \<longrightarrow> name r \<notin> recent)
              \<and> (unvisited = [] \<longrightarrow> name r \<in> recent \<and> name ` set available \<subseteq> recent)"
proof -
  define d where "d = (case date_arg of None \<Rightarrow> now | Some x \<Rightarrow> x)"
  define available where "available = get_available_restaurants rs d"
  define recent where "recent = get_recent_restaurant_names now h 7"
  define unvisited where "unvisited = filter (\<lambda>r. name r \<notin> recent) available"
  define candidates where "candidates = (if unvisited = [] then available else unvisited)"
  have wd: "is_work_day d" and av: "get_available_restaurants rs d \<noteq> []"
    using assms(3,4) by (simp_all add: d_def)
  have c: "candidates =
              (if filter (\<lambda>r. name r \<notin> get_recent_restaurant_names now h 7)
                    (get_available_restaurants rs d) = []
               then get_available_restaurants rs d
               else filter (\<lambda>r. name r \<notin> get_recent_restaurant_names now h 7)
                      (get_available_restaurants rs d))"
    by (simp add: candidates_def unvisited_def recent_def available_def)
  obtain rows top_row r k where cs: "calculate_scores rnd now candidates h d = Inr rows"
    and mem: "top_row \<in> set rows" and r: "r \<in> set candidates"
    and tr: "top_row = score_row (get_monthly_stats rnd now h) (is_thursday d) r k"
    and res: "get_recommendation rnd srt now rs h date_arg = Inr (Some (top_dict rnd top_row))"
    using get_recommendation_picks [OF assms(1,2) d_def wd av c] by blast
  obtain ks where "list_all2 (\<lambda>r k. get_days_since_visit now (name r) h = Inr k) candidates ks"
    and "calculate_scores rnd now candidates h d =
           Inr (map2 (score_row (get_monthly_stats rnd now h) (is_thursday d)) candidates ks)"
    using calculate_scores_ok [OF assms(2), where rnd = rnd and now = now and rs = candidates and d = d] by blast
  then have len: "length rows = length candidates"
    using cs list_all2_lengthD by fastforce
  have sub: "set candidates \<subseteq> set available"
    by (auto simp: candidates_def unvisited_def)
  have "set available \<subseteq> set rs"
    by (auto simp: available_def get_available_restaurants_def Let_def)
  with sub r have ra: "r \<in> set available" and rr: "r \<in> set rs" by auto
  have nm: "r_name (top_dict rnd top_row) = name r" and pr: "r_price (top_dict rnd top_row) = price r"
    by (simp_all add: top_dict_def tr score_row_fields)
  have u: "unvisited \<noteq> [] \<longrightarrow> name r \<notin> recent"
    using r by (auto simp: candidates_def unvisited_def)
  have f: "unvisited = [] \<longrightarrow> name r \<in> recent \<and> name ` set available \<subseteq> recent"
    using ra by (auto simp: unvisited_def filter_empty_conv)
  have "\<exists>rows top_row r.
              calculate_scores rnd now candidates h d = Inr rows
              \<and> length rows = length candidates
              \<and> top_row \<in> set rows
              \<and> get_recommendation rnd srt now rs h date_arg = Inr (Some (top_dict rnd top_row))
              \<and> r \<in> set candidates \<and> r \<in> set available \<and> r \<in> set rs
              \<and> r_name (top_dict rnd top_row) = name r
              \<and> r_price (top_dict rnd top_row) = price r
              \<and> (unvisited \<noteq> [] \<longrightarrow> name r \<notin> recent)
              \<and> (unvisited = [] \<longrightarrow> name r \<in> recent \<and> name ` set available \<subseteq> recent)"
    using cs len mem res r ra rr nm pr u f by blast
  then show ?thesis
    unfolding Let_def d_def [symmetric] available_def [symmetric] recent_def [symmetric]
      unvisited_def [symmetric] candidates_def [symmetric] .
qed

theorem recent_exclusion_with_fallback_witness:
  "sorts_descending stable_sort_values \<and> iso_dates (Some [visit_b]) \<and> is_work_day ex_monday
   \<and> get_available_restaurants [cafe_a, cafe_b] ex_monday = [cafe_a, cafe_b]
   \<and> get_available_restaurants [cafe_b] ex_monday = [cafe_b]
   \<and> get_recent_restaurant_names ex_monday (Some [visit_b]) 7 = {''B''}
   \<and> (\<exists>reco. get_recommendation round_half_even stable_sort_values ex_monday [cafe_a, cafe_b] (Some [visit_b])
                 None = Inr (Some reco) \<and> r_name reco = ''A'')
   \<and> (\<exists>reco. get_recommendation round_half_even stable_sort_values ex_monday [cafe_b] (Some [visit_b])
                 None = Inr (Some reco) \<and> r_name reco = ''B'')"
proof -
  have s: "sorts_descending stable_sort_values" by (rule sorts_descending_stable)
  have i: "iso_dates (Some [visit_b])"
    by (simp add: iso_dates_def get_visits_def is_calendar_date_def visit_b_def strptime_examples)
  have w: "is_work_day (case None of None \<Rightarrow> ex_monday | Some x \<Rightarrow> x)"
    by (simp add: day_kind_examples)
  have a2: "get_available_restaurants [cafe_a, cafe_b]
              (case None of None \<Rightarrow> ex_monday | Some x \<Rightarrow> x) \<noteq> []"
    and a1: "get_available_restaurants [cafe_b]
              (case None of None \<Rightarrow> ex_monday | Some x \<Rightarrow> x) \<noteq> []"
    by (simp_all add: available_examples)
  have 1: "\<exists>reco. get_recommendation round_half_even stable_sort_values ex_monday [cafe_a, cafe_b]
                    (Some [visit_b]) None = Inr (Some reco) \<and> r_name reco = ''A''"
    using recent_exclusion_with_fallback [OF s i w a2, where rnd = round_half_even]
    by (simp add: Let_def available_examples recent_names_examples)
       (auto simp: cafe_a_def cafe_b_def)
  have 2: "\<exists>reco. get_recommendation round_half_even stable_sort_values ex_monday [cafe_b]
                    (Some [visit_b]) None = Inr (Some reco) \<and> r_name reco = ''B''"
    using recent_exclusion_with_fallback [OF s i w a1, where rnd = round_half_even]
    by (simp add: Let_def available_examples recent_names_examples)
       (auto simp: cafe_b_def)
  from s i 1 2 show ?thesis
    by (simp add: day_kind_examples available_examples recent_names_examples)
qed

lemma stable_first:
  assumes "stable_sort_values rows = top_row # rest"
  shows "\<exists>pre post. rows = pre @ top_row # post
           \<and> (\<forall>row \<in> set pre. final_score row < final_score top_row)"
proof -
  define S where "S = sort_key final_score (rev rows)"
  define P where "P = (\<lambda>y::scored. final_score y = final_score top_row)"
  have S: "S = rev rest @ [top_row]"
  proof -
    have "rev S = top_row # rest" using assms by (simp add: stable_sort_values_def S_def)
    then have "rev (rev S) = rev (top_row # rest)" by simp
    then show ?thesis by simp
  qed
  have "sorted (map final_score S)" unfolding S_def by (rule sorted_sort_key)
  then have le: "\<forall>y \<in> set (rev rest). final_score y \<le> final_score top_row"
    unfolding S by (auto simp: sorted_append)
  have setS: "set S = set rows" by (simp add: S_def)
  have all_le: "\<forall>y \<in> set rows. final_score y \<le> final_score top_row"
    using le setS [symmetric] unfolding S by auto
  have "filter P S = filter P (rev rows)"
    unfolding S_def P_def by (rule sort_key_stable)
  then have "filter P (rev rest) @ [top_row] = rev (filter P rows)"
    unfolding S by (simp add: P_def rev_filter)
  then have "rev (filter P (rev rest) @ [top_row]) = rev (rev (filter P rows))" by simp
  then have "filter P rows = top_row # rev (filter P (rev rest))" by simp
  then obtain pre post where rows: "rows = pre @ top_row # post"
    and pre: "\<forall>u \<in> set pre. \<not> P u"
    unfolding filter_eq_Cons_iff by blast
  have "\<forall>row \<in> set pre. final_score row < final_score top_row"
  proof
    fix row assume r: "row \<in> set pre"
    then have "final_score row \<le> final_score top_row" using all_le rows by auto
    moreover have "final_score row \<noteq> final_score top_row" using pre r by (simp add: P_def)
    ultimately show "final_score row < final_score top_row" by simp
  qed
  with rows show ?thesis by blast
qed

lemma scores_first_monday:
  "calculate_scores round_half_even ex_monday [cafe_a, cafe_b] (Some []) ex_monday = Inr [scored_a, scored_b]"
proof -
  have d: "get_days_since_visit ex_monday n (Some []) = Inr 999" for n
    by (simp add: get_days_since_visit_def get_visits_def)
  have m: "get_monthly_stats round_half_even ex_monday (Some []) =
     \<lparr>days_visited = 0, total_spent = 0, current_average = 0, status = ''green'',
      target_daily = 45 / 2\<rparr>"
    by (simp add: get_monthly_stats_def month_visits_examples)
  show ?thesis
    by (simp add: calculate_scores_def d m day_kind_examples score_row_def Let_def
        cafe_a_def cafe_b_def scored_a_def scored_b_def)
qed

lemma top_dict_examples: "top_dict round_half_even scored_a = reco_a" "top_dict round_half_even scored_b = reco_b"
proof -
  have r: "round_half_even (3 / 8) 2 = 19 / 50" "round_half_even (11 / 16) 2 = 69 / 100" "round_half_even 1 2 = 1"
  proof -
    have "\<lfloor>75 / 2 :: rat\<rfloor> = 37" "\<lfloor>275 / 4 :: rat\<rfloor> = 68"
      by (simp_all add: floor_eq_iff)
    then show "round_half_even (3 / 8) 2 = 19 / 50" "round_half_even (11 / 16) 2 = 69 / 100"
      "round_half_even 1 2 = 1"
      by (simp_all add: round_half_even_def Let_def)
  qed
  show "top_dict round_half_even scored_a = reco_a" "top_dict round_half_even scored_b = reco_b"
    by (simp_all add: top_dict_def scored_a_def scored_b_def reco_a_def reco_b_def r)
qed

lemma recent_names_none: "get_recent_restaurant_names now (Some []) k = {}"
  by (simp add: get_recent_restaurant_names_def get_recent_visits_def get_visits_def)

text \<open>
  C8, as the code has it. On a work day with a restaurant available, for every history of
  the data model, \<^verbatim>\<open>get_recommendation\<close> returns a row of the scored candidates whose
  \<^verbatim>\<open>final_score\<close> no other row exceeds. Which of several rows of that highest score it
  returns is left to the sorting routine, and the code asks for no stable one: with a
  sort that keeps equal rows in their order it is the first of them in the table.
\<close>

theorem recommendation_highest_score:
  assumes "sorts_descending srt" and "iso_dates h"
    and "is_work_day (case date_arg of None \<Rightarrow> now | Some x \<Rightarrow> x)"
    and "get_available_restaurants rs (case date_arg of None \<Rightarrow> now | Some x \<Rightarrow> x) \<noteq> []"
  shows "let d = (case date_arg of None \<Rightarrow> now | Some x \<Rightarrow> x);
             available = get_available_restaurants rs d;
             unvisited = filter (\<lambda>r. name r \<notin> get_recent_restaurant_names now h 7) available;
             candidates = (if unvisited = [] then available else unvisited)
         in \<exists>rows top_row.
              calculate_scores rnd now candidates h d = Inr rows
              \<and> top_row \<in> set rows
              \<and> (\<forall>row \<in> set rows. final_score row \<le> final_score top_row)
              \<and> get_recommendation rnd srt now rs h date_arg = Inr (Some (top_dict rnd top_row))
              \<and> (srt = stable_sort_values \<longrightarrow>
                   (\<exists>pre post. rows = pre @ top_row # post
                      \<and> (\<forall>row \<in> set pre. final_score row < final_score top_row)))"
proof -
  define d where "d = (case date_arg of None \<Rightarrow> now | Some x \<Rightarrow> x)"
  define available where "available = get_available_restaurants rs d"
  define unvisited where
    "unvisited = filter (\<lambda>r. name r \<notin> get_recent_restaurant_names now h 7) available"
  define candidates where "candidates = (if unvisited = [] then available else unvisited)"
  have wd: "is_work_day d" and av: "get_available_restaurants rs d \<noteq> []"
    using assms(3,4) by (simp_all add: d_def)
  have c: "candidates =
              (if filter (\<lambda>r. name r \<notin> get_recent_restaurant_names now h 7)
                    (get_available_restaurants rs d) = []
               then get_available_restaurants rs d
               else filter (\<lambda>r. name r \<notin> get_recent_restaurant_names now h 7)
                      (get_available_restaurants rs d))"
    by (simp add: candidates_def unvisited_def available_def)
  obtain rows top_row rest where cs: "calculate_scores rnd now candidates h d = Inr rows"
    and st: "srt rows = top_row # rest"
    and mem: "top_row \<in> set rows"
    and mx: "\<forall>row \<in> set rows. final_score row \<le> final_score top_row"
    and res: "get_recommendation rnd srt now rs h date_arg = Inr (Some (top_dict rnd top_row))"
    using get_recommendation_picks [OF assms(1,2) d_def wd av c] by blast
  have fst: "srt = stable_sort_values \<longrightarrow>
               (\<exists>pre post. rows = pre @ top_row # post
                  \<and> (\<forall>row \<in> set pre. final_score row < final_score top_row))"
    using st stable_first [of rows top_row rest] by auto
  have "\<exists>rows top_row.
              calculate_scores rnd now candidates h d = Inr rows
              \<and> top_row \<in> set rows
              \<and> (\<forall>row \<in> set rows. final_score row \<le> final_score top_row)
              \<and> get_recommendation rnd srt now rs h date_arg = Inr (Some (top_dict rnd top_row))
              \<and> (srt = stable_sort_values \<longrightarrow>
                   (\<exists>pre post. rows = pre @ top_row # post
                      \<and> (\<forall>row \<in> set pre. final_score row < final_score top_row)))"
    using cs mem mx res fst by blast
  then show ?thesis
    unfolding Let_def d_def [symmetric] available_def [symmetric] unvisited_def [symmetric]
      candidates_def [symmetric] .
qed

theorem recommendation_highest_score_witness:
  "sorts_descending stable_sort_values \<and> iso_dates (Some []) \<and> is_work_day ex_monday
   \<and> get_available_restaurants [cafe_a, cafe_b] ex_monday = [cafe_a, cafe_b]
   \<and> calculate_scores round_half_even ex_monday [cafe_a, cafe_b] (Some []) ex_monday = Inr [scored_a, scored_b]
   \<and> final_score scored_a = final_score scored_b
   \<and> get_recommendation round_half_even stable_sort_values ex_monday [cafe_a, cafe_b] (Some []) None
       = Inr (Some reco_a)"
proof -
  have s: "sorts_descending stable_sort_values" by (rule sorts_descending_stable)
  have i: "iso_dates (Some [])" by (rule iso_dates_examples)
  have w: "is_work_day (case None of None \<Rightarrow> ex_monday | Some x \<Rightarrow> x)"
    by (simp add: day_kind_examples)
  have a: "get_available_restaurants [cafe_a, cafe_b]
              (case None of None \<Rightarrow> ex_monday | Some x \<Rightarrow> x) \<noteq> []"
    by (simp add: available_examples)
  have tie: "final_score scored_a = final_score scored_b"
    by (simp add: scored_a_def scored_b_def)
  obtain top_row pre post where
    res: "get_recommendation round_half_even stable_sort_values ex_monday [cafe_a, cafe_b] (Some []) None
            = Inr (Some (top_dict round_half_even top_row))"
    and split: "[scored_a, scored_b] = pre @ top_row # post"
    and less: "\<forall>row \<in> set pre. final_score row < final_score top_row"
    using recommendation_highest_score [OF s i w a, where rnd = round_half_even]
    by (auto simp: Let_def available_examples recent_names_none scores_first_monday)
  have "pre = []"
  proof (cases pre)
    case Nil
    then show ?thesis .
  next
    case (Cons x xs)
    then have x: "x = scored_a" and "top_row \<in> set [scored_b]"
      using split by (auto simp: Cons_eq_append_conv append_eq_Cons_conv)
    then have "top_row = scored_b" by simp
    moreover have "final_score x < final_score top_row" using less Cons by simp
    ultimately show ?thesis using x tie by simp
  qed
  then have "top_row = scored_a" using split by simp
  then have "get_recommendation round_half_even stable_sort_values ex_monday [cafe_a, cafe_b] (Some []) None
       = Inr (Some reco_a)"
    using res by (simp add: top_dict_examples)
  with s i tie show ?thesis
    by (simp add: day_kind_examples available_examples scores_first_monday)
qed

lemma eighteen_available:
  "get_available_restaurants eighteen_cafes ex_thursday = eighteen_cafes"
  by (simp add: get_available_restaurants_def get_day_name_def WORK_DAYS_def weekday_examples
      eighteen_cafes_def cafe_named_def)

lemma eighteen_recent: "get_recent_restaurant_names ex_thursday (Some [visit_r01]) 7 = {}"
proof -
  have c: "strftime_ymd (minus_days ex_thursday 7) = ''2024-06-06''"
    by (simp add: example_defs calendar_defs format_defs Let_def)
  show ?thesis
    by (simp add: get_recent_restaurant_names_def get_recent_visits_def c get_visits_def
        visit_r01_def)
qed

lemma eighteen_days:
  "get_days_since_visit ex_thursday ''R01'' (Some [visit_r01]) = Inr 10"
  "n \<noteq> ''R01'' \<Longrightarrow> get_days_since_visit ex_thursday n (Some [visit_r01]) = Inr 999"
proof -
  have p: "strptime_ymd ''2024-06-03'' = Inr \<lparr>year = 2024, month = 6, day = 3\<rparr>"
    by (simp add: parse_defs calendar_defs)
  show "get_days_since_visit ex_thursday ''R01'' (Some [visit_r01]) = Inr 10"
    by (simp add: get_days_since_visit_def get_visits_def visit_r01_def p days_between_def)
       (simp add: ex_thursday_def calendar_defs)
  show "n \<noteq> ''R01'' \<Longrightarrow> get_days_since_visit ex_thursday n (Some [visit_r01]) = Inr 999"
    by (auto simp: get_days_since_visit_def get_visits_def visit_r01_def)
qed

lemma eighteen_scores:
  "calculate_scores round_half_even ex_thursday eighteen_cafes (Some [visit_r01]) ex_thursday
     = Inr eighteen_rows"
  by (simp add: calculate_scores_def eighteen_cafes_def eighteen_names_def cafe_named_def
      eighteen_days day_kind_examples score_row_def eighteen_rows_def scored_named_def Let_def)

lemma eighteen_keys: "map final_score eighteen_rows = 1 / 3 # replicate 17 1"
  by (simp add: eighteen_rows_def eighteen_names_def scored_named_def numeral_eq_Suc)

lemma eighteen_indexer:
  "nargsort_descending (1 / 3 # replicate 17 1)
     = Some [9, 1, 16, 15, 14, 13, 12, 11, 10, 17, 8, 7, 6, 5, 4, 3, 2, 0]"
  by code_simp

lemma eighteen_sorted_head:
  "\<exists>rest. quicksort_sort_values eighteen_rows = scored_named ''R10'' 999 1 # rest"
proof -
  have "eighteen_rows ! 9 = scored_named ''R10'' 999 1"
    by (simp add: eighteen_rows_def eighteen_names_def)
  then show ?thesis
    by (simp add: quicksort_sort_values_def eighteen_keys eighteen_indexer)
qed

text \<open>
  C8 as stated fails with the default sort. Eighteen restaurants are all available on a
  Thursday; the first was visited ten days before and scores one third, the other seventeen
  were never visited and score 1 alike. The first row of the highest score is R02; the row
  returned has that score and is not R02.
\<close>

theorem first_occurrence_counterexample:
  "is_work_day ex_thursday \<and> iso_dates (Some [visit_r01])
   \<and> get_available_restaurants eighteen_cafes ex_thursday = eighteen_cafes
   \<and> calculate_scores round_half_even ex_thursday eighteen_cafes (Some [visit_r01]) ex_thursday
       = Inr eighteen_rows
   \<and> final_score (eighteen_rows ! 0) = 1 / 3
   \<and> name (eighteen_rows ! 1) = ''R02'' \<and> final_score (eighteen_rows ! 1) = 1
   \<and> list_all (\<lambda>row. final_score row \<le> 1) eighteen_rows
   \<and> (\<exists>reco. get_recommendation round_half_even quicksort_sort_values ex_thursday
                 eighteen_cafes (Some [visit_r01]) None = Inr (Some reco)
          \<and> r_final_score reco = 1 \<and> r_name reco \<noteq> ''R02'')"
proof -
  have i: "iso_dates (Some [visit_r01])"
    by (simp add: iso_dates_def get_visits_def is_calendar_date_def visit_r01_def parse_defs
        calendar_defs)
  obtain rest where s: "quicksort_sort_values eighteen_rows = scored_named ''R10'' 999 1 # rest"
    using eighteen_sorted_head by blast
  have r: "round_half_even 1 2 = 1" by (simp add: round_half_even_def Let_def)
  have g: "get_recommendation round_half_even quicksort_sort_values ex_thursday
             eighteen_cafes (Some [visit_r01]) None
           = Inr (Some (top_dict round_half_even (scored_named ''R10'' 999 1)))"
    by (simp add: get_recommendation_def day_kind_examples eighteen_available eighteen_recent
        Let_def eighteen_scores s)
      (simp add: eighteen_cafes_def eighteen_names_def)
  have t: "r_final_score (top_dict round_half_even (scored_named ''R10'' 999 1)) = 1"
    "r_name (top_dict round_half_even (scored_named ''R10'' 999 1)) \<noteq> ''R02''"
    by (simp_all add: top_dict_def scored_named_def r)
  have f: "final_score (eighteen_rows ! 0) = 1 / 3"
    "name (eighteen_rows ! 1) = ''R02''" "final_score (eighteen_rows ! 1) = 1"
    "list_all (\<lambda>row. final_score row \<le> 1) eighteen_rows"
    by (simp_all add: eighteen_rows_def eighteen_names_def scored_named_def)
  from g t have "\<exists>reco. get_recommendation round_half_even quicksort_sort_values ex_thursday
                 eighteen_cafes (Some [visit_r01]) None = Inr (Some reco)
          \<and> r_final_score reco = 1 \<and> r_name reco \<noteq> ''R02''"
    by blast
  with i f show ?thesis
    by (simp add: day_kind_examples eighteen_available eighteen_scores)
qed

lemma weekday_determines:
  assumes "weekday d = weekday d'"
  shows "is_work_day d = is_work_day d'" "is_thursday d = is_thursday d'"
    "get_available_restaurants rs d = get_available_restaurants rs d'"
    "calculate_scores rnd now rs h d = calculate_scores rnd now rs h d'"
  using assms
  by (simp_all add: is_work_day_def is_thursday_def get_available_restaurants_def
      get_day_name_def calculate_scores_def)

lemma days_shift_with_clock:
  assumes "get_days_since_visit now n h = Inr k"
    and "n \<in> v_restaurant ` set (get_visits h)"
  shows "get_days_since_visit now' n h = Inr (k + (toordinal now' - toordinal now))"
proof -
  have "filter (\<lambda>v. v_restaurant v = n) (get_visits h) \<noteq> []"
    using assms(2) by (auto simp: filter_empty_conv)
  then obtain x xs where
    c: "map v_date (filter (\<lambda>v. v_restaurant v = n) (get_visits h)) = x # xs"
    by (cases "map v_date (filter (\<lambda>v. v_restaurant v = n) (get_visits h))") auto
  show ?thesis
  proof (cases "strptime_ymd (fold max xs x)")
    case (Inl e)
    then show ?thesis using assms(1) c by (simp add: get_days_since_visit_def)
  next
    case (Inr last_date)
    then have "k = toordinal now - toordinal last_date"
      using assms(1) c by (simp add: get_days_since_visit_def days_between_def)
    then show ?thesis using Inr c by (simp add: get_days_since_visit_def days_between_def)
  qed
qed

lemma recommended_days:
  assumes "sorts_descending srt" and "iso_dates h" and "is_work_day d"
    and "get_available_restaurants rs d = [r]"
  shows "\<exists>reco k. get_recommendation rnd srt now rs h (Some d) = Inr (Some reco)
           \<and> get_days_since_visit now (name r) h = Inr k \<and> r_days_since_visit reco = k"
proof -
  define cands where "cands =
              (if filter (\<lambda>r. name r \<notin> get_recent_restaurant_names now h 7)
                    (get_available_restaurants rs d) = []
               then get_available_restaurants rs d
               else filter (\<lambda>r. name r \<notin> get_recent_restaurant_names now h 7)
                      (get_available_restaurants rs d))"
  have d: "d = (case Some d of None \<Rightarrow> now | Some x \<Rightarrow> x)" by simp
  have av: "get_available_restaurants rs d \<noteq> []" using assms(4) by simp
  obtain top_row r' k where r': "r' \<in> set cands"
    and k: "get_days_since_visit now (name r') h = Inr k"
    and tr: "top_row = score_row (get_monthly_stats rnd now h) (is_thursday d) r' k"
    and res: "get_recommendation rnd srt now rs h (Some d) = Inr (Some (top_dict rnd top_row))"
    using get_recommendation_picks [OF assms(1,2) d assms(3) av cands_def] by blast
  have "set cands \<subseteq> {r}" using assms(4) by (auto simp: cands_def)
  then have "r' = r" using r' by auto
  moreover have "r_days_since_visit (top_dict rnd top_row) = k"
    by (simp add: top_dict_def tr score_row_fields)
  ultimately show ?thesis using k res by blast
qed

lemma days_next_monday: "toordinal ex_next_monday - toordinal ex_monday = 7"
  by (simp add: example_defs calendar_defs)

text \<open>
  C10. The window of recent visits and the days since a visit are computed from the clock
  at the call, not from the date argument: \<^verbatim>\<open>get_recommendation\<close> reads of its date
  argument the weekday only, and an absent argument is the clock's day; a name is recent
  when a visit to it is dated, as a string, no earlier than the clock's day less 7; the
  days since a visit move with the clock, day for day. With the same clock and the same
  arguments the result is the same; with the same arguments and two clocks a week apart
  the results can differ.
\<close>

theorem recommendation_reads_clock:
  "(weekday d = weekday d' \<longrightarrow>
      get_recommendation rnd srt now rs h (Some d) = get_recommendation rnd srt now rs h (Some d'))
   \<and> get_recommendation rnd srt now rs h None = get_recommendation rnd srt now rs h (Some now)
   \<and> (n \<in> get_recent_restaurant_names now h 7
        \<longleftrightarrow> (\<exists>v \<in> set (get_visits h).
               v_restaurant v = n \<and> strftime_ymd (minus_days now 7) \<le> v_date v))
   \<and> (get_days_since_visit now n h = Inr k \<and> n \<in> v_restaurant ` set (get_visits h) \<longrightarrow>
        get_days_since_visit now' n h = Inr (k + (toordinal now' - toordinal now)))
   \<and> (now = now' \<longrightarrow>
        get_recommendation rnd srt now rs h date_arg = get_recommendation rnd srt now' rs h date_arg)
   \<and> get_recommendation round_half_even stable_sort_values ex_monday [cafe_a] (Some [visit_a]) (Some ex_monday)
       \<noteq> get_recommendation round_half_even stable_sort_values ex_next_monday [cafe_a] (Some [visit_a])
            (Some ex_monday)"
proof -
  have 1: "weekday d = weekday d' \<longrightarrow>
      get_recommendation rnd srt now rs h (Some d) = get_recommendation rnd srt now rs h (Some d')"
  proof
    assume w: "weekday d = weekday d'"
    show "get_recommendation rnd srt now rs h (Some d) = get_recommendation rnd srt now rs h (Some d')"
      unfolding get_recommendation_def Let_def option.case
        weekday_determines(1) [OF w] weekday_determines(3) [OF w] weekday_determines(4) [OF w]
      by (rule refl)
  qed
  have 2: "get_recommendation rnd srt now rs h None = get_recommendation rnd srt now rs h (Some now)"
    by (simp add: get_recommendation_def)
  have 3: "n \<in> get_recent_restaurant_names now h 7
        \<longleftrightarrow> (\<exists>v \<in> set (get_visits h).
               v_restaurant v = n \<and> strftime_ymd (minus_days now 7) \<le> v_date v)"
    by (auto simp: get_recent_restaurant_names_def get_recent_visits_def Let_def)
  have 4: "get_days_since_visit now n h = Inr k \<and> n \<in> v_restaurant ` set (get_visits h) \<longrightarrow>
        get_days_since_visit now' n h = Inr (k + (toordinal now' - toordinal now))"
    using days_shift_with_clock by blast
  have 5: "now = now' \<longrightarrow>
        get_recommendation rnd srt now rs h date_arg = get_recommendation rnd srt now' rs h date_arg"
    by simp
  have 6: "get_recommendation round_half_even stable_sort_values ex_monday [cafe_a] (Some [visit_a])
             (Some ex_monday)
       \<noteq> get_recommendation round_half_even stable_sort_values ex_next_monday [cafe_a] (Some [visit_a])
            (Some ex_monday)"
  proof -
    have s: "sorts_descending stable_sort_values" by (rule sorts_descending_stable)
    have i: "iso_dates (Some [visit_a])" by (rule iso_dates_examples)
    have w: "is_work_day ex_monday" by (rule day_kind_examples)
    have a: "get_available_restaurants [cafe_a] ex_monday = [cafe_a]"
      by (rule available_examples)
    have n: "name cafe_a = ''A''" by (simp add: cafe_a_def)
    have d1: "get_days_since_visit ex_monday ''A'' (Some [visit_a]) = Inr 8"
      by (rule days_since_visit_examples)
    have "''A'' \<in> v_restaurant ` set (get_visits (Some [visit_a]))"
      by (simp add: get_visits_def visit_a_def)
    then have d2: "get_days_since_visit ex_next_monday ''A'' (Some [visit_a]) = Inr 15"
      using days_shift_with_clock [OF d1, of ex_next_monday] by (simp add: days_next_monday)
    obtain reco1 where r1: "get_recommendation round_half_even stable_sort_values ex_monday [cafe_a]
        (Some [visit_a]) (Some ex_monday) = Inr (Some reco1)"
      and k1: "r_days_since_visit reco1 = 8"
      using recommended_days [OF s i w a, where rnd = round_half_even and now = ex_monday] by (auto simp: n d1)
    obtain reco2 where r2: "get_recommendation round_half_even stable_sort_values ex_next_monday [cafe_a]
        (Some [visit_a]) (Some ex_monday) = Inr (Some reco2)"
      and k2: "r_days_since_visit reco2 = 15"
      using recommended_days [OF s i w a, where rnd = round_half_even and now = ex_next_monday] by (auto simp: n d2)
    have "reco1 \<noteq> reco2" using k1 k2 by auto
    then show ?thesis by (simp add: r1 r2)
  qed
  from 1 2 3 4 5 6 show ?thesis by (intro conjI)
qed

theorem recommendation_reads_clock_witness:
  "weekday ex_monday = weekday ex_next_monday
   \<and> get_recommendation round_half_even stable_sort_values ex_monday [cafe_a] (Some [visit_a]) (Some ex_monday)
       = get_recommendation round_half_even stable_sort_values ex_monday [cafe_a] (Some [visit_a])
           (Some ex_next_monday)
   \<and> get_days_since_visit ex_monday ''A'' (Some [visit_a]) = Inr 8
   \<and> ''A'' \<in> v_restaurant ` set (get_visits (Some [visit_a]))
   \<and> get_days_since_visit ex_next_monday ''A'' (Some [visit_a]) = Inr 15
   \<and> get_recommendation round_half_even stable_sort_values ex_monday [cafe_a] (Some [visit_a]) (Some ex_monday)
       \<noteq> get_recommendation round_half_even stable_sort_values ex_next_monday [cafe_a] (Some [visit_a])
            (Some ex_monday)"
proof -
  have w: "weekday ex_monday = weekday ex_next_monday" by (simp add: weekday_examples)
  have d1: "get_days_since_visit ex_monday ''A'' (Some [visit_a]) = Inr 8"
    by (rule days_since_visit_examples)
  have m: "''A'' \<in> v_restaurant ` set (get_visits (Some [visit_a]))"
    by (simp add: get_visits_def visit_a_def)
  note t = recommendation_reads_clock [where d = ex_monday and d' = ex_next_monday
      and srt = stable_sort_values and now = ex_monday and now' = ex_next_monday
      and rs = "[cafe_a]" and h = "Some [visit_a]" and n = "''A''" and k = 8
      and date_arg = None and rnd = round_half_even]
  have e: "get_recommendation round_half_even stable_sort_values ex_monday [cafe_a] (Some [visit_a])
             (Some ex_monday)
       = get_recommendation round_half_even stable_sort_values ex_monday [cafe_a] (Some [visit_a])
           (Some ex_next_monday)"
    using t w by blast
  have d2: "get_days_since_visit ex_next_monday ''A'' (Some [visit_a]) = Inr 15"
    using t d1 m by (simp add: days_next_monday)
  have x: "get_recommendation round_half_even stable_sort_values ex_monday [cafe_a] (Some [visit_a])
             (Some ex_monday)
       \<noteq> get_recommendation round_half_even stable_sort_values ex_next_monday [cafe_a] (Some [visit_a])
            (Some ex_monday)"
    using t by blast
  from w e d1 m d2 x show ?thesis by (intro conjI)
qed

end
